theory Spec2Isabelle
  imports Complex_Main "HOL-Library.Sublist" "HOL-Library.AList"
begin

section \<open>Python values\<close>

text \<open>
  The schema fragments wrapped by \<^verbatim>\<open>JSONSchema\<close> and the values handed to the validators
  are dynamically typed Python values. A dict is kept as the list of its items in insertion
  order (the keys of a parsed JSON object are strings); a float is carried by the rational
  number it denotes. \<open>Undefined\<close> is the \<^verbatim>\<open>undefined\<close> singleton of
  \<^verbatim>\<open>jstraitlets\<close>, which is not \<^verbatim>\<open>None\<close>.
\<close>

datatype pyval =
    Undefined
  | PNone
  | PBool bool
  | PInt int
  | PFloat rat
  | PStr string
  | PList "pyval list"
  | PDict "(string \<times> pyval) list"

text \<open>The exceptions the modelled code raises. The \<^verbatim>\<open>ValueError\<close>s are told apart by
  their message; \<open>RecursionError\<close> is what the interpreter raises when the nesting of calls
  passes its recursion limit.\<close>

datatype value_error =
    SchemaNotDict \<comment> \<open>"schema should be supplied as a dict"\<close>
  | EmptyReference \<comment> \<open>"empty reference"\<close>
  | UnrecognizedRefFormat string \<comment> \<open>"Unrecognized $ref format: '{ref}'"\<close>
  | RefNotPresent string \<comment> \<open>"$ref='{ref}' not present in the schema"\<close>
  | NoRecognizedTraitCode "string list"
      \<comment> \<open>"No recognized trait code for schema with keys {tuple(self.schema.keys())}"\<close>

datatype error =
    ValueError value_error
  | KeyError string
  | IndexError
  | TypeError
  | AttributeError string
  | RecursionError

text \<open>\<^verbatim>\<open>isinstance(v, dict)\<close>\<close>

fun is_dict :: "pyval \<Rightarrow> bool" where
  "is_dict (PDict kvs) = True"
| "is_dict v = False"

text \<open>Truth value testing, as \<^verbatim>\<open>not ref\<close> and \<^verbatim>\<open>if self.metadata.get(...)\<close> use it.\<close>

fun truthy :: "pyval \<Rightarrow> bool" where
  "truthy Undefined = True"
| "truthy PNone = False"
| "truthy (PBool b) = b"
| "truthy (PInt i) = (i \<noteq> 0)"
| "truthy (PFloat q) = (q \<noteq> 0)"
| "truthy (PStr s) = (s \<noteq> [])"
| "truthy (PList xs) = (xs \<noteq> [])"
| "truthy (PDict kvs) = (kvs \<noteq> [])"

text \<open>\<^verbatim>\<open>d.get(key)\<close> on a dict, \<open>None\<close> standing for an absent key. The schema of a node
  is a dict (the constructor checks it), so the fall-through case is never reached from a
  constructed node.\<close>

fun dict_get :: "pyval \<Rightarrow> string \<Rightarrow> pyval option" where
  "dict_get (PDict kvs) key = map_of kvs key"
| "dict_get v key = None"

text \<open>\<^verbatim>\<open>tuple(d.keys())\<close>\<close>

fun dict_keys :: "pyval \<Rightarrow> string list" where
  "dict_keys (PDict kvs) = map fst kvs"
| "dict_keys v = []"

text \<open>\<^verbatim>\<open>v[key]\<close> with a string key: a dict raises \<^verbatim>\<open>KeyError\<close> on a missing key; a
  list, a string and every other value raise \<^verbatim>\<open>TypeError\<close>.\<close>

fun subscript :: "pyval \<Rightarrow> string \<Rightarrow> error + pyval" where
  "subscript (PDict kvs) key =
     (case map_of kvs key of None \<Rightarrow> Inl (KeyError key) | Some v \<Rightarrow> Inr v)"
| "subscript v key = Inl TypeError"

text \<open>What \<^verbatim>\<open>for spec in v\<close> runs through: the elements of a list, the keys of a dict, the
  characters of a string; any other value is not iterable.\<close>

fun iterate :: "pyval \<Rightarrow> error + pyval list" where
  "iterate (PList xs) = Inr xs"
| "iterate (PDict kvs) = Inr (map (\<lambda>kv. PStr (fst kv)) kvs)"
| "iterate (PStr s) = Inr (map (\<lambda>c. PStr [c]) s)"
| "iterate v = Inl TypeError"


text \<open>\<^verbatim>\<open>s.split(sep)\<close> for a one-character separator: never empty, \<^verbatim>\<open>''.split('/') == ['']\<close>.\<close>

fun split :: "char \<Rightarrow> string \<Rightarrow> string list" where
  "split sep [] = [[]]"
| "split sep (c # cs) =
     (if c = sep then [] # split sep cs
      else (case split sep cs of [] \<Rightarrow> [[c]] | w # ws \<Rightarrow> (c # w) # ws))"

section \<open>Schema nodes\<close>

text \<open>
  An instance of \<^verbatim>\<open>JSONSchema\<close>. \<open>context_arg\<close> is \<open>None\<close> for an instance that is its own
  context (\<^verbatim>\<open>self.context = context or self\<close> with no context given) and holds the context
  otherwise; \<open>context_of\<close> reads \<^verbatim>\<open>self.context\<close>. \<open>cached_extractor\<close> is
  \<^verbatim>\<open>self._trait_extractor\<close>.
\<close>

datatype extractor =
    tx_AnyOfObject | tx_OneOfObject | tx_AllOfObject
  | tx_RefObject | tx_RefTrait
  | tx_Not | tx_AnyOf | tx_AllOf | tx_OneOf
  | tx_Enum | tx_SimpleType | tx_CompoundType
  | tx_Array | tx_Object

datatype node = Node
  (schema: pyval)
  (module: "string option")
  (context_arg: "node option")
  (parent: "node option")
  (name: "string option")
  (metadata: "(string \<times> pyval) list")
  (definition_tags: "string list")
  (cached_extractor: "extractor option")

definition context_of :: "node \<Rightarrow> node" where
  "context_of n = (case context_arg n of None \<Rightarrow> n | Some c \<Rightarrow> c)"


text \<open>\<^verbatim>\<open>JSONSchema.__init__\<close>. An instance of the class is always true in a condition, so
  \<^verbatim>\<open>context or self\<close> is the context whenever one is given; \<^verbatim>\<open>metadata or {}\<close> turns
  \<^verbatim>\<open>None\<close> into the empty dict.\<close>

definition init ::
  "pyval \<Rightarrow> string option \<Rightarrow> node option \<Rightarrow> node option \<Rightarrow> string option
     \<Rightarrow> (string \<times> pyval) list option \<Rightarrow> string list \<Rightarrow> error + node" where
  "init sch mdl ctx par nm md tags =
     (if \<not> is_dict sch then Inl (ValueError SchemaNotDict)
      else Inr (Node sch mdl ctx par nm (case md of None \<Rightarrow> [] | Some m \<Rightarrow> m) tags None))"

definition default_definition_tags :: "string list" where
  "default_definition_tags = [''definitions'']"

text \<open>\<^verbatim>\<open>copy(**kwargs)\<close>: every keyword that is given overrides the instance's own value, and
  the result goes through the constructor again.\<close>

record copy_kwargs =
  kw_schema :: "pyval option"
  kw_module :: "string option option"
  kw_context :: "node option option"
  kw_parent :: "node option option"
  kw_name :: "string option option"
  kw_metadata :: "(string \<times> pyval) list option option"

definition no_kwargs :: copy_kwargs where
  "no_kwargs = \<lparr>kw_schema = None, kw_module = None, kw_context = None, kw_parent = None,
                 kw_name = None, kw_metadata = None\<rparr>"

definition copy :: "node \<Rightarrow> copy_kwargs \<Rightarrow> error + node" where
  "copy n kw =
     init (case kw_schema kw of None \<Rightarrow> schema n | Some s \<Rightarrow> s)
          (case kw_module kw of None \<Rightarrow> module n | Some m \<Rightarrow> m)
          (case kw_context kw of None \<Rightarrow> Some (context_of n) | Some c \<Rightarrow> c)
          (case kw_parent kw of None \<Rightarrow> parent n | Some p \<Rightarrow> p)
          (case kw_name kw of None \<Rightarrow> name n | Some x \<Rightarrow> x)
          (case kw_metadata kw of None \<Rightarrow> Some (metadata n) | Some m \<Rightarrow> m)
          default_definition_tags"

text \<open>\<^verbatim>\<open>make_child(schema, name=None, metadata=None)\<close>\<close>

definition make_child ::
  "node \<Rightarrow> pyval \<Rightarrow> string option \<Rightarrow> (string \<times> pyval) list option \<Rightarrow> error + node" where
  "make_child n sch nm md =
     init sch (module n) (Some (context_of n)) (Some n) nm md default_definition_tags"

text \<open>\<^verbatim>\<open>key in self\<close> and \<^verbatim>\<open>self[key]\<close>\<close>

definition contains :: "node \<Rightarrow> string \<Rightarrow> bool" where
  "contains n key = (dict_get (schema n) key \<noteq> None)"

definition getitem :: "node \<Rightarrow> string \<Rightarrow> error + pyval" where
  "getitem n key = subscript (schema n) key"

text \<open>The class attribute \<^verbatim>\<open>attr_defaults\<close> and \<^verbatim>\<open>__getattr__\<close>, which Python calls for an
  attribute that the instance and the class do not define.\<close>

definition attr_defaults :: "(string \<times> pyval) list" where
  "attr_defaults =
     [(''title'', PStr ''''),
      (''description'', PStr ''''),
      (''properties'', PDict []),
      (''definitions'', PDict []),
      (''default'', PNone),
      (''examples'', PDict []),
      (''type'', PStr ''object''),
      (''required'', PList []),
      (''additionalProperties'', PBool True)]"

definition getattr :: "node \<Rightarrow> string \<Rightarrow> error + pyval" where
  "getattr n attr =
     (case map_of attr_defaults attr of
        Some d \<Rightarrow> Inr (case dict_get (schema n) attr of None \<Rightarrow> d | Some v \<Rightarrow> v)
      | None \<Rightarrow> Inl (AttributeError attr))"

text \<open>\<^verbatim>\<open>self.type\<close>, \<^verbatim>\<open>self.required\<close> and \<^verbatim>\<open>self.properties\<close>: the three attributes are
  in \<^verbatim>\<open>attr_defaults\<close>, so the lookup cannot fail.\<close>

definition type_of :: "node \<Rightarrow> pyval" where
  "type_of n = (case dict_get (schema n) ''type'' of None \<Rightarrow> PStr ''object'' | Some v \<Rightarrow> v)"



section \<open>Reference resolution\<close>

text \<open>The loop \<^verbatim>\<open>for key in path[1:]: schema = schema[key]\<close>; an exception ends it.\<close>

fun walk :: "pyval \<Rightarrow> string list \<Rightarrow> error + pyval" where
  "walk sch [] = Inr sch"
| "walk sch (key # keys) =
     (case subscript sch key of Inl e \<Rightarrow> Inl e | Inr v \<Rightarrow> walk v keys)"

text \<open>\<^verbatim>\<open>get_reference(ref)\<close> for a string \<open>ref\<close>. Only the \<^verbatim>\<open>KeyError\<close> of the walk is
  caught and turned into the \<^verbatim>\<open>ValueError\<close>; any other exception leaves the function as
  it is.\<close>

definition get_reference_str :: "node \<Rightarrow> string \<Rightarrow> error + node" where
  "get_reference_str n ref =
     (if ref = [] then Inl (ValueError EmptyReference)
      else (case split CHR ''/'' ref of
              [] \<Rightarrow> Inl IndexError
            | p0 # rest \<Rightarrow>
                if p0 \<noteq> ''#'' then Inl (ValueError (UnrecognizedRefFormat ref))
                else if (case rest of [] \<Rightarrow> True | p1 # ps \<Rightarrow> p1 = []) then Inr (context_of n)
                else (case walk (schema (context_of n)) rest of
                        Inl (KeyError k) \<Rightarrow> Inl (ValueError (RefNotPresent ref))
                      | Inl e \<Rightarrow> Inl e
                      | Inr sch \<Rightarrow> make_child n sch (Some (last (p0 # rest))) None)))"

text \<open>\<^verbatim>\<open>get_reference\<close> for any value of \<^verbatim>\<open>$ref\<close>: a false value is an empty reference, and
  a true value that is not a string has no \<^verbatim>\<open>split\<close>.\<close>

definition get_reference :: "node \<Rightarrow> pyval \<Rightarrow> error + node" where
  "get_reference n ref =
     (if \<not> truthy ref then Inl (ValueError EmptyReference)
      else (case ref of PStr r \<Rightarrow> get_reference_str n r | _ \<Rightarrow> Inl (AttributeError ''split'')))"

text \<open>\<^verbatim>\<open>wrapped_ref()\<close>\<close>

definition wrapped_ref :: "node \<Rightarrow> error + node" where
  "wrapped_ref n =
     (case subscript (schema n) ''$ref'' of Inl e \<Rightarrow> Inl e | Inr r \<Rightarrow> get_reference n r)"

section \<open>The recursive predicates\<close>

text \<open>\<^verbatim>\<open>all(f(spec) for spec in specs)\<close>: the generator is consumed up to the first false
  result, and an exception in a branch ends it.\<close>

fun py_all :: "(pyval \<Rightarrow> error + bool) \<Rightarrow> pyval list \<Rightarrow> error + bool" where
  "py_all f [] = Inr True"
| "py_all f (x # xs) =
     (case f x of Inl e \<Rightarrow> Inl e | Inr b \<Rightarrow> if b then py_all f xs else Inr False)"

text \<open>\<^verbatim>\<open>all(self.make_child(spec).p() for spec in self[key])\<close> for a predicate \<open>p\<close> of nodes.\<close>

definition all_children :: "(node \<Rightarrow> error + bool) \<Rightarrow> node \<Rightarrow> string \<Rightarrow> error + bool" where
  "all_children p n key =
     (case getitem n key of
        Inl e \<Rightarrow> Inl e
      | Inr v \<Rightarrow>
          (case iterate v of
             Inl e \<Rightarrow> Inl e
           | Inr specs \<Rightarrow>
               py_all (\<lambda>spec. case make_child n spec None None of
                                Inl e \<Rightarrow> Inl e | Inr c \<Rightarrow> p c) specs))"

text \<open>
  \<^verbatim>\<open>really_is_trait()\<close> and \<^verbatim>\<open>really_is_object()\<close>. Both call themselves on the resolved
  reference and on the children, with nothing that bounds the nesting. The first argument
  is the number of nested calls of the two predicates that the interpreter's recursion limit
  still leaves room for: when none is left, the call raises \<^verbatim>\<open>RecursionError\<close>. A
  nested call takes more than one frame of the stack (\<^verbatim>\<open>wrapped_ref\<close>, \<^verbatim>\<open>get_reference\<close>,
  \<^verbatim>\<open>make_child\<close> and the generator of \<^verbatim>\<open>all\<close> lie in between), so the number is smaller
  than the limit; nothing below depends on its value.
\<close>

fun really_is_trait :: "nat \<Rightarrow> node \<Rightarrow> error + bool" where
  "really_is_trait 0 n = Inl RecursionError"
| "really_is_trait (Suc d) n =
     (if type_of n \<noteq> PStr ''object'' then Inr True
      else if contains n ''properties'' then Inr False
      else if contains n ''$ref'' then
        (case wrapped_ref n of Inl e \<Rightarrow> Inl e | Inr t \<Rightarrow> really_is_trait d t)
      else if contains n ''anyOf'' then all_children (really_is_trait d) n ''anyOf''
      else if contains n ''allOf'' then all_children (really_is_trait d) n ''allOf''
      else if contains n ''oneOf'' then all_children (really_is_trait d) n ''oneOf''
      else Inr False)"

fun really_is_object :: "nat \<Rightarrow> node \<Rightarrow> error + bool" where
  "really_is_object 0 n = Inl RecursionError"
| "really_is_object (Suc d) n =
     (if contains n ''properties'' then Inr True
      else if contains n ''$ref'' then
        (case wrapped_ref n of Inl e \<Rightarrow> Inl e | Inr t \<Rightarrow> really_is_object d t)
      else if contains n ''anyOf'' then all_children (really_is_object d) n ''anyOf''
      else if contains n ''allOf'' then all_children (really_is_object d) n ''allOf''
      else if contains n ''oneOf'' then all_children (really_is_object d) n ''oneOf''
      else Inr False)"

section \<open>The extractor chain\<close>

text \<open>The class attribute \<^verbatim>\<open>trait_extractors\<close>, in the order of the source.\<close>

definition trait_extractors :: "extractor list" where
  "trait_extractors =
     [tx_AnyOfObject, tx_OneOfObject, tx_AllOfObject,
      tx_RefObject, tx_RefTrait,
      tx_Not, tx_AnyOf, tx_AllOf, tx_OneOf,
      tx_Enum, tx_SimpleType, tx_CompoundType,
      tx_Array, tx_Object]"

text \<open>
  The loop \<^verbatim>\<open>for TraitExtractor in self.trait_extractors: ... if trait_extractor.check()\<close>
  that \<^verbatim>\<open>trait_extractor\<close>, \<^verbatim>\<open>trait_code\<close>, \<^verbatim>\<open>object_code\<close> and \<^verbatim>\<open>trait_imports\<close> share.
  The extractor classes are defined in the module \<^verbatim>\<open>trait_extractors\<close>; their
  \<^verbatim>\<open>check()\<close> is the parameter \<open>chk\<close>, which may raise. \<open>None\<close> is the \<^verbatim>\<open>else\<close> branch
  of the loop: no extractor matched.
\<close>

fun first_match ::
  "(extractor \<Rightarrow> node \<Rightarrow> error + bool) \<Rightarrow> node \<Rightarrow> extractor list \<Rightarrow> error + extractor option"
where
  "first_match chk n [] = Inr None"
| "first_match chk n (t # ts) =
     (case chk t n of
        Inl e \<Rightarrow> Inl e
      | Inr b \<Rightarrow> if b then Inr (Some t) else first_match chk n ts)"

text \<open>The property \<^verbatim>\<open>trait_extractor\<close>: the match is stored in \<^verbatim>\<open>self._trait_extractor\<close>, so
  the result comes with the instance as the call leaves it.\<close>

definition trait_extractor ::
  "(extractor \<Rightarrow> node \<Rightarrow> error + bool) \<Rightarrow> node \<Rightarrow> error + extractor \<times> node" where
  "trait_extractor chk n =
     (case cached_extractor n of
        Some t \<Rightarrow> Inr (t, n)
      | None \<Rightarrow>
          (case first_match chk n trait_extractors of
             Inl e \<Rightarrow> Inl e
           | Inr None \<Rightarrow> Inl (ValueError (NoRecognizedTraitCode (dict_keys (schema n))))
           | Inr (Some t) \<Rightarrow>
               Inr (t, Node (schema n) (module n) (context_arg n) (parent n) (name n)
                             (metadata n) (definition_tags n) (Some t))))"

text \<open>The keyword arguments that \<^verbatim>\<open>trait_code\<close> builds from the metadata:
  \<^verbatim>\<open>self.metadata.get('required', False)\<close> decides.\<close>

definition trait_code_kwargs :: "node \<Rightarrow> (string \<times> pyval) list" where
  "trait_code_kwargs n =
     (if truthy (case map_of (metadata n) ''required'' of None \<Rightarrow> PBool False | Some v \<Rightarrow> v)
      then [(''allow_undefined'', PBool False)] else [])"

text \<open>The property \<^verbatim>\<open>trait_code\<close>; \<open>code\<close> is the \<^verbatim>\<open>trait_code(**kwargs)\<close> of the
  extractor classes.\<close>

definition trait_code ::
  "(extractor \<Rightarrow> node \<Rightarrow> error + bool)
     \<Rightarrow> (extractor \<Rightarrow> node \<Rightarrow> (string \<times> pyval) list \<Rightarrow> error + 'c) \<Rightarrow> node \<Rightarrow> error + 'c" where
  "trait_code chk code n =
     (case first_match chk n trait_extractors of
        Inl e \<Rightarrow> Inl e
      | Inr None \<Rightarrow> Inl (ValueError (NoRecognizedTraitCode (dict_keys (schema n))))
      | Inr (Some t) \<Rightarrow> code t n (trait_code_kwargs n))"

section \<open>Wrapped properties\<close>




section \<open>Validator descriptors\<close>

text \<open>
  The validators are the classes \<^verbatim>\<open>JSONNull\<close>, \<^verbatim>\<open>JSONBoolean\<close>, ... of the module
  \<^verbatim>\<open>jstraitlets\<close>, of which the repository's files hold the tests only. The definitions of
  this section follow the specification's description of each descriptor; the names are
  those the tests use.
\<close>

text \<open>Modelled from the spec: the numeric constraint keywords of \<^verbatim>\<open>JSONNumber\<close> and
  \<^verbatim>\<open>JSONInteger\<close> (the validators of \<^verbatim>\<open>jstraitlets\<close> are missing).\<close>

record constraints =
  minimum :: "rat option"
  maximum :: "rat option"
  exclusiveMinimum :: bool
  exclusiveMaximum :: bool
  multipleOf :: "rat option"

definition unconstrained :: constraints where
  "unconstrained = \<lparr>minimum = None, maximum = None, exclusiveMinimum = False,
                     exclusiveMaximum = False, multipleOf = None\<rparr>"

text \<open>Modelled from the spec: the native composite types of \<^verbatim>\<open>JSONInstance\<close>.\<close>

datatype native_type = native_dict | native_list

text \<open>Modelled from the spec: the Validator Descriptor, a tagged variant of thirteen kinds
  (the classes of \<^verbatim>\<open>jstraitlets\<close> are missing). The first argument of every kind is its
  \<^verbatim>\<open>allow_undefined\<close> flag.\<close>

datatype descriptor =
    JSONNull bool
  | JSONBoolean bool
  | JSONNumber bool constraints
  | JSONInteger bool constraints
  | JSONString bool
  | JSONArray bool descriptor "nat option" "nat option"
  | JSONEnum bool "pyval list"
  | JSONInstance bool native_type
  | JSONUnion bool "descriptor list"
  | JSONAnyOf bool "descriptor list"
  | JSONOneOf bool "descriptor list"
  | JSONAllOf bool "descriptor list"
  | JSONNot bool descriptor



text \<open>Modelled from the spec: the result of \<^verbatim>\<open>validate(value)\<close>, pass or fail with the
  reason: a type mismatch, or the keyword that is violated.\<close>

datatype failure = TypeMismatch | ConstraintViolation string

datatype outcome = Pass | Fail failure

text \<open>Modelled from the spec: what \<open>Undefined\<close> gets from a descriptor with the given flag.\<close>

definition validate_undefined :: "bool \<Rightarrow> outcome" where
  "validate_undefined a = (if a then Pass else Fail TypeMismatch)"

text \<open>Modelled from the spec: the numeric values, booleans not among them.\<close>

fun number_value :: "pyval \<Rightarrow> rat option" where
  "number_value (PInt i) = Some (of_int i)"
| "number_value (PFloat q) = Some q"
| "number_value v = None"

definition integral :: "rat \<Rightarrow> bool" where
  "integral q = (of_int \<lfloor>q\<rfloor> = q)"

text \<open>Modelled from the spec: \<^verbatim>\<open>minimum\<close>/\<^verbatim>\<open>maximum\<close>, strict when the exclusive flag is
  set, then \<^verbatim>\<open>multipleOf\<close>: the value modulo the multiple is zero, which no value is for
  the multiple zero. The comparison is exact on the rationals that carry the numbers.\<close>

definition check_constraints :: "constraints \<Rightarrow> rat \<Rightarrow> outcome" where
  "check_constraints c x =
     (if (case minimum c of None \<Rightarrow> False | Some m \<Rightarrow> x < m)
      then Fail (ConstraintViolation ''minimum'')
      else if (case minimum c of None \<Rightarrow> False | Some m \<Rightarrow> exclusiveMinimum c \<and> x = m)
      then Fail (ConstraintViolation ''exclusiveMinimum'')
      else if (case maximum c of None \<Rightarrow> False | Some m \<Rightarrow> m < x)
      then Fail (ConstraintViolation ''maximum'')
      else if (case maximum c of None \<Rightarrow> False | Some m \<Rightarrow> exclusiveMaximum c \<and> x = m)
      then Fail (ConstraintViolation ''exclusiveMaximum'')
      else if (case multipleOf c of None \<Rightarrow> False | Some m \<Rightarrow> m = 0 \<or> \<not> integral (x / m))
      then Fail (ConstraintViolation ''multipleOf'')
      else Pass)"

text \<open>Modelled from the spec: the first failure of a sequence of results.\<close>

fun first_failure :: "outcome list \<Rightarrow> outcome" where
  "first_failure [] = Pass"
| "first_failure (Pass # rs) = first_failure rs"
| "first_failure (Fail f # rs) = Fail f"

text \<open>Modelled from the spec: the type check of a descriptor, which is all that a
  \<^verbatim>\<open>JSONUnion\<close> asks of its members. An enumeration and the composites state no type.\<close>

fun type_check :: "descriptor \<Rightarrow> pyval \<Rightarrow> bool" where
  "type_check (JSONNull a) v = (v = PNone)"
| "type_check (JSONBoolean a) v = (case v of PBool b \<Rightarrow> True | _ \<Rightarrow> False)"
| "type_check (JSONNumber a c) v = (number_value v \<noteq> None)"
| "type_check (JSONInteger a c) v =
     (case number_value v of None \<Rightarrow> False | Some x \<Rightarrow> integral x)"
| "type_check (JSONString a) v = (case v of PStr s \<Rightarrow> True | _ \<Rightarrow> False)"
| "type_check (JSONArray a item lo hi) v = (case v of PList xs \<Rightarrow> True | _ \<Rightarrow> False)"
| "type_check (JSONInstance a native_dict) v = (case v of PDict kvs \<Rightarrow> True | _ \<Rightarrow> False)"
| "type_check (JSONInstance a native_list) v = (case v of PList xs \<Rightarrow> True | _ \<Rightarrow> False)"
| "type_check d v = True"

text \<open>
  Modelled from the spec: \<^verbatim>\<open>validate(value)\<close> of every descriptor (the validators of
  \<^verbatim>\<open>jstraitlets\<close> are missing). Each kind first settles \<open>Undefined\<close> by its flag.
  \<^verbatim>\<open>JSONAnyOf\<close> passes when at least one branch validates, \<^verbatim>\<open>JSONOneOf\<close> when exactly
  one does, \<^verbatim>\<open>JSONAllOf\<close> when every branch does, \<^verbatim>\<open>JSONNot\<close> when the wrapped
  descriptor fails.
\<close>

fun validate :: "descriptor \<Rightarrow> pyval \<Rightarrow> outcome" where
  "validate (JSONNull a) v =
     (if v = Undefined then validate_undefined a
      else if v = PNone then Pass else Fail TypeMismatch)"
| "validate (JSONBoolean a) v =
     (if v = Undefined then validate_undefined a
      else (case v of PBool b \<Rightarrow> Pass | _ \<Rightarrow> Fail TypeMismatch))"
| "validate (JSONNumber a c) v =
     (if v = Undefined then validate_undefined a
      else (case number_value v of
              None \<Rightarrow> Fail TypeMismatch
            | Some x \<Rightarrow> check_constraints c x))"
| "validate (JSONInteger a c) v =
     (if v = Undefined then validate_undefined a
      else (case number_value v of
              None \<Rightarrow> Fail TypeMismatch
            | Some x \<Rightarrow> if integral x then check_constraints c x else Fail TypeMismatch))"
| "validate (JSONString a) v =
     (if v = Undefined then validate_undefined a
      else (case v of PStr s \<Rightarrow> Pass | _ \<Rightarrow> Fail TypeMismatch))"
| "validate (JSONArray a item lo hi) v =
     (if v = Undefined then validate_undefined a
      else (case v of
              PList xs \<Rightarrow>
                if (case lo of None \<Rightarrow> False | Some m \<Rightarrow> length xs < m)
                then Fail (ConstraintViolation ''minItems'')
                else if (case hi of None \<Rightarrow> False | Some m \<Rightarrow> m < length xs)
                then Fail (ConstraintViolation ''maxItems'')
                else first_failure (map (validate item) xs)
            | _ \<Rightarrow> Fail TypeMismatch))"
| "validate (JSONEnum a vs) v =
     (if v = Undefined then validate_undefined a
      else if v \<in> set vs then Pass else Fail (ConstraintViolation ''enum''))"
| "validate (JSONInstance a t) v =
     (if v = Undefined then validate_undefined a
      else if type_check (JSONInstance a t) v then Pass else Fail TypeMismatch)"
| "validate (JSONUnion a ds) v =
     (if v = Undefined then validate_undefined a
      else if \<exists>d \<in> set ds. type_check d v then Pass else Fail TypeMismatch)"
| "validate (JSONAnyOf a ds) v =
     (if v = Undefined then validate_undefined a
      else if \<exists>d \<in> set ds. validate d v = Pass then Pass
      else Fail (ConstraintViolation ''anyOf''))"
| "validate (JSONOneOf a ds) v =
     (if v = Undefined then validate_undefined a
      else if length (filter (\<lambda>d. validate d v = Pass) ds) = 1 then Pass
      else Fail (ConstraintViolation ''oneOf''))"
| "validate (JSONAllOf a ds) v =
     (if v = Undefined then validate_undefined a
      else first_failure (map (\<lambda>d. validate d v) ds))"
| "validate (JSONNot a d) v =
     (if v = Undefined then validate_undefined a
      else if validate d v = Pass then Fail (ConstraintViolation ''not'') else Pass)"

section \<open>Nodes as the constructor makes them\<close>

text \<open>\<^verbatim>\<open>JSONSchema(sch)\<close> for a dict \<open>sch\<close>: a root instance, which is its own context.\<close>

definition root_node :: "pyval \<Rightarrow> node" where
  "root_node sch = Node sch None None None None [] default_definition_tags None"

text \<open>The invariant of the constructor: the wrapped fragment is a dict, in the instance, in
  its context and in its parent, and so on along both links.\<close>

fun constructed :: "node \<Rightarrow> bool" where
  "constructed (Node sch mdl ctx par nm md tags ce) =
     (is_dict sch
      \<and> (case ctx of None \<Rightarrow> True | Some c \<Rightarrow> constructed c)
      \<and> (case par of None \<Rightarrow> True | Some p \<Rightarrow> constructed p))"

text \<open>A root schema with one definition, \<^verbatim>\<open>{"definitions": {"A": {}}}\<close>.\<close>

definition example_root :: node where
  "example_root = root_node (PDict [(''definitions'', PDict [(''A'', PDict [])])])"

text \<open>A fragment that declares \<^verbatim>\<open>properties\<close> together with a type other than
  \<^verbatim>\<open>"object"\<close>.\<close>

definition properties_and_string_type :: pyval where
  "properties_and_string_type = PDict [(''type'', PStr ''string''), (''properties'', PDict [])]"

text \<open>The instance after \<^verbatim>\<open>self._trait_extractor = trait_extractor\<close>.\<close>

definition with_extractor :: "node \<Rightarrow> extractor \<Rightarrow> node" where
  "with_extractor n t =
     Node (schema n) (module n) (context_arg n) (parent n) (name n) (metadata n)
          (definition_tags n) (Some t)"

text \<open>Two \<^verbatim>\<open>check()\<close> tables to run the chain on: one where the enumeration and the object
  extractor match, one where none does.\<close>

definition enum_or_object :: "extractor \<Rightarrow> node \<Rightarrow> error + bool" where
  "enum_or_object t n = Inr (t = tx_Enum \<or> t = tx_Object)"

definition nothing_matches :: "extractor \<Rightarrow> node \<Rightarrow> error + bool" where
  "nothing_matches t n = Inr False"

text \<open>The schema \<^verbatim>\<open>{"enum": [1, "2", null]}\<close>.\<close>

definition enum_node :: node where
  "enum_node = root_node (PDict [(''enum'', PList [PInt 1, PStr ''2'', PNone])])"

text \<open>A \<^verbatim>\<open>trait_code(**kwargs)\<close> that tells which extractor was asked.\<close>

definition extractor_name :: "extractor \<Rightarrow> node \<Rightarrow> (string \<times> pyval) list \<Rightarrow> error + extractor" where
  "extractor_name t n kwargs = Inr t"

text \<open>The test \<^verbatim>\<open>len(path) == 1 or path[1] == ''\<close> of \<^verbatim>\<open>get_reference\<close> on the path of a
  reference.\<close>

definition names_context :: "string list \<Rightarrow> bool" where
  "names_context path = (case path of [] \<Rightarrow> False | [p0] \<Rightarrow> True | p0 # p1 # ps \<Rightarrow> p1 = [])"

text \<open>The root schema \<^verbatim>\<open>{"": {}}\<close>, whose only key is the empty string.\<close>

definition empty_key_root :: node where
  "empty_key_root = root_node (PDict [('''', PDict [])])"

text \<open>The root schema \<^verbatim>\<open>{"type": "string"}\<close>.\<close>

definition string_type_root :: node where
  "string_type_root = root_node (PDict [(''type'', PStr ''string'')])"

text \<open>What \<^verbatim>\<open>get_reference("#/definitions/A")\<close> makes on \<open>example_root\<close>.\<close>

definition child_A :: node where
  "child_A = Node (PDict []) None (Some example_root) (Some example_root) (Some ''A'') []
                  default_definition_tags None"

text \<open>The outcome \<^verbatim>\<open>self.wrapped_ref().really_is_object()\<close> being \<^verbatim>\<open>True\<close>, with \<open>d\<close> calls
  left for the target.\<close>

definition target_is_object :: "nat \<Rightarrow> node \<Rightarrow> bool" where
  "target_is_object d n =
     (case wrapped_ref n of Inl e \<Rightarrow> False | Inr t \<Rightarrow> really_is_object d t = Inr True)"

text \<open>Every branch under \<open>key\<close> makes a child that is object-like, with \<open>d\<close> calls left for
  each branch.\<close>

definition branches_all_object :: "nat \<Rightarrow> node \<Rightarrow> string \<Rightarrow> bool" where
  "branches_all_object d n key =
     (case getitem n key of
        Inl e \<Rightarrow> False
      | Inr v \<Rightarrow>
          (case iterate v of
             Inl e \<Rightarrow> False
           | Inr specs \<Rightarrow>
               list_all (\<lambda>spec. case make_child n spec None None of
                                  Inl e \<Rightarrow> False
                                | Inr c \<Rightarrow> really_is_object d c = Inr True) specs))"

text \<open>The specification's wording of object-like, a disjunction over the keywords: the node
  declares \<^verbatim>\<open>properties\<close>, or it is a \<^verbatim>\<open>$ref\<close> node with an object-like target, or it is an
  \<^verbatim>\<open>anyOf\<close>, \<^verbatim>\<open>allOf\<close> or \<^verbatim>\<open>oneOf\<close> node all of whose branches are object-like.\<close>

definition object_like_as_claimed :: "nat \<Rightarrow> node \<Rightarrow> bool" where
  "object_like_as_claimed d n =
     (contains n ''properties''
      \<or> (contains n ''$ref'' \<and> target_is_object d n)
      \<or> (contains n ''anyOf'' \<and> branches_all_object d n ''anyOf'')
      \<or> (contains n ''allOf'' \<and> branches_all_object d n ''allOf'')
      \<or> (contains n ''oneOf'' \<and> branches_all_object d n ''oneOf''))"

text \<open>The \<^verbatim>\<open>if\<close>/\<^verbatim>\<open>elif\<close> chain of \<^verbatim>\<open>really_is_object\<close> read as a condition: the first keyword
  present, in the order \<^verbatim>\<open>properties\<close>, \<^verbatim>\<open>$ref\<close>, \<^verbatim>\<open>anyOf\<close>, \<^verbatim>\<open>allOf\<close>, \<^verbatim>\<open>oneOf\<close>, decides alone.\<close>

definition object_like_by_precedence :: "nat \<Rightarrow> node \<Rightarrow> bool" where
  "object_like_by_precedence d n =
     (if contains n ''properties'' then True
      else if contains n ''$ref'' then target_is_object d n
      else if contains n ''anyOf'' then branches_all_object d n ''anyOf''
      else if contains n ''allOf'' then branches_all_object d n ''allOf''
      else if contains n ''oneOf'' then branches_all_object d n ''oneOf''
      else False)"

text \<open>At most one of \<^verbatim>\<open>$ref\<close>, \<^verbatim>\<open>anyOf\<close>, \<^verbatim>\<open>allOf\<close>, \<^verbatim>\<open>oneOf\<close> is a key of the fragment.\<close>

definition single_keyword :: "node \<Rightarrow> bool" where
  "single_keyword n =
     (length (filter (contains n) [''$ref'', ''anyOf'', ''allOf'', ''oneOf'']) \<le> 1)"

text \<open>A root schema with both \<^verbatim>\<open>$ref\<close>, to the string type \<^verbatim>\<open>#/definitions/S\<close>, and \<^verbatim>\<open>anyOf\<close>,
  with one branch that declares \<^verbatim>\<open>properties\<close>.\<close>

definition ref_and_anyOf_root :: node where
  "ref_and_anyOf_root = root_node (PDict
     [(''$ref'', PStr ''#/definitions/S''),
      (''anyOf'', PList [PDict [(''properties'', PDict [])]]),
      (''definitions'', PDict [(''S'', PDict [(''type'', PStr ''string'')])])])"

text \<open>\<^verbatim>\<open>{"anyOf": [{"properties": {}}, {"type": "string"}]}\<close>: one object branch and one
  primitive branch.\<close>

definition mixed_anyOf_root :: node where
  "mixed_anyOf_root = root_node (PDict
     [(''anyOf'', PList [PDict [(''properties'', PDict [])],
                         PDict [(''type'', PStr ''string'')]])])"

text \<open>\<^verbatim>\<open>{"anyOf": [{"properties": {}}, {"properties": {"a": {}}}]}\<close>: two object branches.\<close>

definition all_object_anyOf_root :: node where
  "all_object_anyOf_root = root_node (PDict
     [(''anyOf'', PList [PDict [(''properties'', PDict [])],
                         PDict [(''properties'', PDict [(''a'', PDict [])])]])])"











text \<open>The root schema \<^verbatim>\<open>{"a": "s", "": "t"}\<close>, whose members are strings.\<close>

definition string_members_root :: node where
  "string_members_root = root_node (PDict [(''a'', PStr ''s''), ([], PStr ''t'')])"

text \<open>The root schema \<^verbatim>\<open>{"type": "string", "title": "T"}\<close>.\<close>

definition typed_and_titled_root :: node where
  "typed_and_titled_root = root_node (PDict [(''type'', PStr ''string''), (''title'', PStr ''T'')])"

text \<open>The trait of the test case \<^verbatim>\<open>jst.JSONOneOf([jst.JSONInteger(), jst.JSONNumber()])\<close> of
  \<^verbatim>\<open>generate_test_cases\<close>, every flag at its default.\<close>

definition oneOf_integer_number :: descriptor where
  "oneOf_integer_number =
     JSONOneOf True [JSONInteger True unconstrained, JSONNumber True unconstrained]"

text \<open>\<^verbatim>\<open>test_traits(trait, failcases, passcases)\<close>: the test passes when \<^verbatim>\<open>validate\<close> returns
  for every pass case and raises \<^verbatim>\<open>TraitError\<close> for every fail case; here on the validators
  as the specification describes them.\<close>

definition test_traits :: "descriptor \<Rightarrow> pyval list \<Rightarrow> pyval list \<Rightarrow> bool" where
  "test_traits trait failcases passcases =
     (list_all (\<lambda>v. validate trait v = Pass) passcases
      \<and> list_all (\<lambda>v. validate trait v \<noteq> Pass) failcases)"





section \<open>Attribute defaults\<close>

lemma getattr_lookup:
  "getattr n ''type'' =
     Inr (case dict_get (schema n) ''type'' of None \<Rightarrow> PStr ''object'' | Some v \<Rightarrow> v)"
  "getattr n ''additionalProperties'' =
     Inr (case dict_get (schema n) ''additionalProperties'' of
            None \<Rightarrow> PBool True | Some v \<Rightarrow> v)"
  "getattr n ''required'' =
     Inr (case dict_get (schema n) ''required'' of None \<Rightarrow> PList [] | Some v \<Rightarrow> v)"
  "getattr n ''properties'' =
     Inr (case dict_get (schema n) ''properties'' of None \<Rightarrow> PDict [] | Some v \<Rightarrow> v)"
  "getattr n ''definitions'' =
     Inr (case dict_get (schema n) ''definitions'' of None \<Rightarrow> PDict [] | Some v \<Rightarrow> v)"
  "getattr n ''title'' =
     Inr (case dict_get (schema n) ''title'' of None \<Rightarrow> PStr '''' | Some v \<Rightarrow> v)"
  "getattr n ''description'' =
     Inr (case dict_get (schema n) ''description'' of None \<Rightarrow> PStr '''' | Some v \<Rightarrow> v)"
  "getattr n ''default'' =
     Inr (case dict_get (schema n) ''default'' of None \<Rightarrow> PNone | Some v \<Rightarrow> v)"
  by (simp_all add: getattr_def attr_defaults_def)

text \<open>
  Claim C8. Let the fragment of a node be the dict with the items \<open>kvs\<close>, and let \<open>a\<close> be one
  of the keywords \<^verbatim>\<open>type\<close>, \<^verbatim>\<open>additionalProperties\<close>, \<^verbatim>\<open>required\<close>, \<^verbatim>\<open>properties\<close>,
  \<^verbatim>\<open>definitions\<close>, \<^verbatim>\<open>title\<close>, \<^verbatim>\<open>description\<close>, \<^verbatim>\<open>default\<close>, with \<open>d\<close> its documented default:
  \<^verbatim>\<open>"object"\<close>, true, the empty list, the empty dict twice, the empty string twice, \<^verbatim>\<open>None\<close>.
  If no item of the fragment has the key \<open>a\<close>, the attribute \<open>a\<close> of the node yields \<open>d\<close>; if
  the fragment has the item \<open>(a, v)\<close>, the attribute yields \<open>v\<close>.
\<close>

theorem getattr_defaults:
  assumes "schema n = PDict kvs" and "distinct (map fst kvs)"
    and "(a, d) \<in> set [(''type'', PStr ''object''),
                        (''additionalProperties'', PBool True),
                        (''required'', PList []),
                        (''properties'', PDict []),
                        (''definitions'', PDict []),
                        (''title'', PStr ''''),
                        (''description'', PStr ''''),
                        (''default'', PNone)]"
  shows "(a \<notin> fst ` set kvs \<longrightarrow> getattr n a = Inr d)
       \<and> (\<forall>v. (a, v) \<in> set kvs \<longrightarrow> getattr n a = Inr v)"
proof -
  from assms(3)
  have "a = ''type'' \<and> d = PStr ''object''
      \<or> a = ''additionalProperties'' \<and> d = PBool True
      \<or> a = ''required'' \<and> d = PList []
      \<or> a = ''properties'' \<and> d = PDict []
      \<or> a = ''definitions'' \<and> d = PDict []
      \<or> a = ''title'' \<and> d = PStr ''''
      \<or> a = ''description'' \<and> d = PStr ''''
      \<or> a = ''default'' \<and> d = PNone"
    unfolding list.set insert_iff empty_iff prod.inject simp_thms .
  then have "getattr n a = Inr (case dict_get (schema n) a of None \<Rightarrow> d | Some v \<Rightarrow> v)"
    by (elim disjE conjE; hypsubst; simp only: getattr_lookup)
  then have g: "getattr n a = Inr (case map_of kvs a of None \<Rightarrow> d | Some v \<Rightarrow> v)"
    by (simp add: assms(1))
  have absent: "map_of kvs a = None" if "a \<notin> fst ` set kvs"
    using that by (simp add: map_of_eq_None_iff)
  have present: "map_of kvs a = Some v" if "(a, v) \<in> set kvs" for v
    using assms(2) that by (rule map_of_is_SomeI)
  show ?thesis
    using g absent present by simp
qed

theorem getattr_defaults_witness:
  "getattr typed_and_titled_root ''type'' = Inr (PStr ''string'')
   \<and> getattr typed_and_titled_root ''title'' = Inr (PStr ''T'')
   \<and> getattr typed_and_titled_root ''additionalProperties'' = Inr (PBool True)
   \<and> getattr typed_and_titled_root ''required'' = Inr (PList [])
   \<and> getattr typed_and_titled_root ''properties'' = Inr (PDict [])
   \<and> getattr typed_and_titled_root ''definitions'' = Inr (PDict [])
   \<and> getattr typed_and_titled_root ''description'' = Inr (PStr '''')
   \<and> getattr typed_and_titled_root ''default'' = Inr PNone
   \<and> getattr (root_node (PDict [])) ''type'' = Inr (PStr ''object'')
   \<and> getattr (root_node (PDict [])) ''title'' = Inr (PStr '''')"
proof -
  have s: "schema typed_and_titled_root = PDict [(''type'', PStr ''string''), (''title'', PStr ''T'')]"
    by (simp add: typed_and_titled_root_def root_node_def)
  have d: "distinct (map fst [(''type'', PStr ''string''), (''title'', PStr ''T'')])"
    by simp
  have e: "schema (root_node (PDict [])) = PDict []"
    by (simp add: root_node_def)
  have e': "distinct (map fst ([] :: (string \<times> pyval) list))"
    by simp
  have "getattr typed_and_titled_root ''type'' = Inr (PStr ''string'')"
    using getattr_defaults [OF s d, of "''type''" "PStr ''object''"] by simp
  moreover have "getattr typed_and_titled_root ''title'' = Inr (PStr ''T'')"
    using getattr_defaults [OF s d, of "''title''" "PStr ''''"] by simp
  moreover have "getattr typed_and_titled_root ''additionalProperties'' = Inr (PBool True)"
    using getattr_defaults [OF s d, of "''additionalProperties''" "PBool True"] by simp
  moreover have "getattr typed_and_titled_root ''required'' = Inr (PList [])"
    using getattr_defaults [OF s d, of "''required''" "PList []"] by simp
  moreover have "getattr typed_and_titled_root ''properties'' = Inr (PDict [])"
    using getattr_defaults [OF s d, of "''properties''" "PDict []"] by simp
  moreover have "getattr typed_and_titled_root ''definitions'' = Inr (PDict [])"
    using getattr_defaults [OF s d, of "''definitions''" "PDict []"] by simp
  moreover have "getattr typed_and_titled_root ''description'' = Inr (PStr '''')"
    using getattr_defaults [OF s d, of "''description''" "PStr ''''"] by simp
  moreover have "getattr typed_and_titled_root ''default'' = Inr PNone"
    using getattr_defaults [OF s d, of "''default''" PNone] by simp
  moreover have "getattr (root_node (PDict [])) ''type'' = Inr (PStr ''object'')"
    using getattr_defaults [OF e e', of "''type''" "PStr ''object''"] by simp
  moreover have "getattr (root_node (PDict [])) ''title'' = Inr (PStr '''')"
    using getattr_defaults [OF e e', of "''title''" "PStr ''''"] by simp
  ultimately show ?thesis by blast
qed

section \<open>The constructor's check\<close>

lemma constructed_iff:
  "constructed n =
     (is_dict (schema n)
      \<and> (case context_arg n of None \<Rightarrow> True | Some c \<Rightarrow> constructed c)
      \<and> (case parent n of None \<Rightarrow> True | Some p \<Rightarrow> constructed p))"
  by (cases n) simp

lemma constructed_context_of: "constructed n \<Longrightarrow> constructed (context_of n)"
  by (cases n) (auto simp: context_of_def split: option.splits)

lemma init_Inr:
  "init sch mdl ctx par nm md tags = Inr n \<longleftrightarrow>
     is_dict sch \<and> n = Node sch mdl ctx par nm (case md of None \<Rightarrow> [] | Some m \<Rightarrow> m) tags None"
  by (auto simp: init_def)

lemma make_child_Inr:
  "make_child n sch nm md = Inr c \<longleftrightarrow>
     is_dict sch \<and> c = Node sch (module n) (Some (context_of n)) (Some n) nm
                          (case md of None \<Rightarrow> [] | Some m \<Rightarrow> m) default_definition_tags None"
  by (simp add: make_child_def init_Inr)

lemma make_child_Inl:
  "make_child n sch nm md = Inl e \<longleftrightarrow> \<not> is_dict sch \<and> e = ValueError SchemaNotDict"
  by (auto simp: make_child_def init_def)

lemma constructed_make_child:
  "constructed n \<Longrightarrow> make_child n sch nm md = Inr c \<Longrightarrow> constructed c"
  by (auto simp: make_child_Inr constructed_context_of)

lemma get_reference_str_cases:
  assumes "get_reference_str n r = Inr t"
  shows "t = context_of n \<or> (\<exists>sch nm. make_child n sch nm None = Inr t)"
  using assms
  by (auto simp: get_reference_str_def split: if_splits list.splits sum.splits error.splits)

lemma get_reference_cases:
  assumes "get_reference n r = Inr t"
  shows "t = context_of n \<or> (\<exists>sch nm. make_child n sch nm None = Inr t)"
  using assms get_reference_str_cases
  by (auto simp: get_reference_def split: if_splits pyval.splits)

lemma constructed_get_reference:
  "constructed n \<Longrightarrow> get_reference n r = Inr t \<Longrightarrow> constructed t"
  using get_reference_cases constructed_make_child constructed_context_of by blast

text \<open>
  Claim C9. The constructor raises \<^verbatim>\<open>ValueError("schema should be supplied as a dict")\<close>
  for a fragment that is not a dict and yields no instance; so the fragment of every instance
  it yields is a dict, and \<^verbatim>\<open>make_child\<close>, \<^verbatim>\<open>copy\<close> and \<^verbatim>\<open>get_reference\<close> keep the invariant
  \<open>constructed\<close> (for \<^verbatim>\<open>copy\<close>, with any context and parent it is given satisfying it).
\<close>

theorem constructor_requires_dict:
  "(\<not> is_dict sch \<longrightarrow> init sch mdl ctx par nm md tags = Inl (ValueError SchemaNotDict))
   \<and> (init sch mdl ctx par nm md tags = Inr n \<longrightarrow> is_dict (schema n))
   \<and> (init sch mdl ctx par nm md tags = Inr n
        \<and> (case ctx of None \<Rightarrow> True | Some c \<Rightarrow> constructed c)
        \<and> (case par of None \<Rightarrow> True | Some p \<Rightarrow> constructed p) \<longrightarrow> constructed n)
   \<and> (constructed n0 \<and> make_child n0 sch' nm' md' = Inr n1 \<longrightarrow> constructed n1)
   \<and> (constructed n0
        \<and> (case kw_context kw of Some (Some c) \<Rightarrow> constructed c | _ \<Rightarrow> True)
        \<and> (case kw_parent kw of Some (Some p) \<Rightarrow> constructed p | _ \<Rightarrow> True)
        \<and> copy n0 kw = Inr n2 \<longrightarrow> constructed n2)
   \<and> (constructed n0 \<and> get_reference n0 r = Inr n3 \<longrightarrow> constructed n3)
   \<and> (constructed n0 \<longrightarrow> is_dict (schema n0))"
proof (intro conjI impI)
  show "init sch mdl ctx par nm md tags = Inl (ValueError SchemaNotDict)" if "\<not> is_dict sch"
    using that by (simp add: init_def)
  show "is_dict (schema n)" if "init sch mdl ctx par nm md tags = Inr n"
    using that by (auto simp: init_Inr)
  show "constructed n"
    if "init sch mdl ctx par nm md tags = Inr n
        \<and> (case ctx of None \<Rightarrow> True | Some c \<Rightarrow> constructed c)
        \<and> (case par of None \<Rightarrow> True | Some p \<Rightarrow> constructed p)"
    using that by (auto simp: init_Inr)
  show "constructed n1" if "constructed n0 \<and> make_child n0 sch' nm' md' = Inr n1"
    using that constructed_make_child by blast
  show "constructed n2"
    if "constructed n0
        \<and> (case kw_context kw of Some (Some c) \<Rightarrow> constructed c | _ \<Rightarrow> True)
        \<and> (case kw_parent kw of Some (Some p) \<Rightarrow> constructed p | _ \<Rightarrow> True)
        \<and> copy n0 kw = Inr n2"
  proof -
    from that have c: "constructed n0" and r: "copy n0 kw = Inr n2" by simp_all
    have p: "case parent n0 of None \<Rightarrow> True | Some p \<Rightarrow> constructed p"
      using c constructed_iff by blast
    show ?thesis
      using that p constructed_context_of[OF c]
      by (auto simp: copy_def init_Inr split: option.splits)
  qed
  show "constructed n3" if "constructed n0 \<and> get_reference n0 r = Inr n3"
    using that constructed_get_reference by blast
  show "is_dict (schema n0)" if "constructed n0"
    using that constructed_iff by blast
qed

theorem constructor_requires_dict_witness:
  "init (PList []) None None None None None default_definition_tags = Inl (ValueError SchemaNotDict)
   \<and> init (PDict []) None None None None None default_definition_tags = Inr (root_node (PDict []))
   \<and> is_dict (schema (root_node (PDict [])))
   \<and> constructed (root_node (PDict []))
   \<and> constructed example_root
   \<and> make_child example_root (PDict []) None None
       = Inr (Node (PDict []) None (Some example_root) (Some example_root) None []
                   default_definition_tags None)
   \<and> constructed (Node (PDict []) None (Some example_root) (Some example_root) None []
                   default_definition_tags None)
   \<and> copy example_root no_kwargs
       = Inr (Node (schema example_root) None (Some example_root) None None []
                   default_definition_tags None)
   \<and> constructed (Node (schema example_root) None (Some example_root) None None []
                   default_definition_tags None)
   \<and> get_reference example_root (PStr ''#/definitions/A'')
       = Inr (Node (PDict []) None (Some example_root) (Some example_root) (Some ''A'') []
                   default_definition_tags None)
   \<and> constructed (Node (PDict []) None (Some example_root) (Some example_root) (Some ''A'') []
                   default_definition_tags None)"
  using constructor_requires_dict
          [of "PList []" None None None None None default_definition_tags "root_node (PDict [])"
              example_root "PDict []" None None "root_node (PDict [])" no_kwargs "root_node (PDict [])"
              "PStr ''#/definitions/A''" "root_node (PDict [])"]
        constructor_requires_dict
          [of "PDict []" None None None None None default_definition_tags "root_node (PDict [])"
              example_root "PDict []" None None
              "Node (PDict []) None (Some example_root) (Some example_root) None []
                   default_definition_tags None"
              no_kwargs
              "Node (schema example_root) None (Some example_root) None None []
                   default_definition_tags None"
              "PStr ''#/definitions/A''"
              "Node (PDict []) None (Some example_root) (Some example_root) (Some ''A'') []
                   default_definition_tags None"]
  by (simp add: init_def root_node_def example_root_def make_child_def copy_def no_kwargs_def
      context_of_def get_reference_def get_reference_str_def)

section \<open>Trait-like and object-like are not complements\<close>

text \<open>
  Claim C10. \<^verbatim>\<open>really_is_trait\<close> and \<^verbatim>\<open>really_is_object\<close> are not complements. Both are false
  on every node of type \<^verbatim>\<open>"object"\<close> with none of \<^verbatim>\<open>properties\<close>, \<^verbatim>\<open>$ref\<close>, \<^verbatim>\<open>anyOf\<close>,
  \<^verbatim>\<open>allOf\<close>, \<^verbatim>\<open>oneOf\<close>, the empty fragment among them; both are true on every node that
  declares \<^verbatim>\<open>properties\<close> and has a type other than \<^verbatim>\<open>"object"\<close>, and such a node exists.
\<close>

theorem predicates_not_complements:
  "(type_of n = PStr ''object'' \<and> \<not> contains n ''properties'' \<and> \<not> contains n ''$ref''
      \<and> \<not> contains n ''anyOf'' \<and> \<not> contains n ''allOf'' \<and> \<not> contains n ''oneOf''
     \<longrightarrow> really_is_trait (Suc d) n = Inr False \<and> really_is_object (Suc d) n = Inr False)
   \<and> (contains m ''properties'' \<and> type_of m \<noteq> PStr ''object''
     \<longrightarrow> really_is_trait (Suc d) m = Inr True \<and> really_is_object (Suc d) m = Inr True)
   \<and> really_is_trait (Suc d) (root_node (PDict [])) = Inr False
   \<and> really_is_object (Suc d) (root_node (PDict [])) = Inr False
   \<and> really_is_trait (Suc d) (root_node properties_and_string_type) = Inr True
   \<and> really_is_object (Suc d) (root_node properties_and_string_type) = Inr True"
  by (simp add: root_node_def properties_and_string_type_def type_of_def contains_def)

theorem predicates_not_complements_witness:
  "type_of (root_node (PDict [])) = PStr ''object''
   \<and> \<not> contains (root_node (PDict [])) ''properties''
   \<and> \<not> contains (root_node (PDict [])) ''$ref''
   \<and> \<not> contains (root_node (PDict [])) ''anyOf''
   \<and> \<not> contains (root_node (PDict [])) ''allOf''
   \<and> \<not> contains (root_node (PDict [])) ''oneOf''
   \<and> really_is_trait 1 (root_node (PDict [])) = Inr False
   \<and> really_is_object 1 (root_node (PDict [])) = Inr False
   \<and> contains (root_node properties_and_string_type) ''properties''
   \<and> type_of (root_node properties_and_string_type) \<noteq> PStr ''object''
   \<and> really_is_trait 1 (root_node properties_and_string_type) = Inr True
   \<and> really_is_object 1 (root_node properties_and_string_type) = Inr True"
  using predicates_not_complements
          [where n = "root_node (PDict [])" and m = "root_node properties_and_string_type"
             and d = 0]
  by (simp add: root_node_def properties_and_string_type_def type_of_def contains_def)

section \<open>First match wins\<close>

lemma ex_append_Cons:
  "(\<exists>pre post. a # ts = pre @ t # post \<and> Q pre post) \<longleftrightarrow>
     (a = t \<and> Q [] ts) \<or> (\<exists>pre post. ts = pre @ t # post \<and> Q (a # pre) post)"
proof
  assume "\<exists>pre post. a # ts = pre @ t # post \<and> Q pre post"
  then obtain pre post where e: "a # ts = pre @ t # post" and q: "Q pre post" by blast
  show "(a = t \<and> Q [] ts) \<or> (\<exists>pre post. ts = pre @ t # post \<and> Q (a # pre) post)"
  proof (cases pre)
    case Nil
    with e q show ?thesis by simp
  next
    case (Cons b pre')
    with e q have "ts = pre' @ t # post \<and> Q (a # pre') post" by simp
    then show ?thesis by blast
  qed
next
  assume "(a = t \<and> Q [] ts) \<or> (\<exists>pre post. ts = pre @ t # post \<and> Q (a # pre) post)"
  then show "\<exists>pre post. a # ts = pre @ t # post \<and> Q pre post"
  proof
    assume "a = t \<and> Q [] ts"
    then have "a # ts = [] @ t # ts \<and> Q [] ts" by simp
    then show ?thesis by blast
  next
    assume "\<exists>pre post. ts = pre @ t # post \<and> Q (a # pre) post"
    then obtain pre post where "ts = pre @ t # post" "Q (a # pre) post" by blast
    then have "a # ts = (a # pre) @ t # post \<and> Q (a # pre) post" by simp
    then show ?thesis by blast
  qed
qed

lemma first_match_Some:
  "first_match chk n ts = Inr (Some t) \<longleftrightarrow>
     (\<exists>pre post. ts = pre @ t # post
        \<and> ((\<forall>x \<in> set pre. chk x n = Inr False) \<and> chk t n = Inr True))"
proof (induction ts)
  case Nil
  then show ?case by simp
next
  case (Cons a ts)
  show ?case
    unfolding ex_append_Cons [of a ts t "\<lambda>pre post. (\<forall>x \<in> set pre. chk x n = Inr False) \<and> chk t n = Inr True"]
    using Cons.IH by (cases "chk a n") auto
qed

lemma first_match_None:
  "first_match chk n ts = Inr None \<longleftrightarrow> (\<forall>t \<in> set ts. chk t n = Inr False)"
  by (induction ts) (auto split: sum.splits)

text \<open>
  Claim C3. The extractors are tried in the fixed order of \<open>trait_extractors\<close>. On an
  instance with nothing cached, \<^verbatim>\<open>trait_extractor\<close> yields \<open>t\<close> exactly when \<open>t\<close> is the
  first extractor of the list whose check is true, every one before it having checked false,
  and it stores \<open>t\<close> in the instance; \<^verbatim>\<open>trait_code\<close> yields what that extractor produces.
  When every check is false, both raise the \<^verbatim>\<open>ValueError\<close> that carries the keys of the
  wrapped fragment.
\<close>

theorem first_match_wins:
  "trait_extractors =
     [tx_AnyOfObject, tx_OneOfObject, tx_AllOfObject, tx_RefObject, tx_RefTrait,
      tx_Not, tx_AnyOf, tx_AllOf, tx_OneOf, tx_Enum, tx_SimpleType, tx_CompoundType,
      tx_Array, tx_Object]
   \<and> (cached_extractor n = None \<longrightarrow>
        (trait_extractor chk n = Inr (t, n') \<longleftrightarrow>
           n' = with_extractor n t
           \<and> (\<exists>pre post. trait_extractors = pre @ t # post
                \<and> ((\<forall>x \<in> set pre. chk x n = Inr False) \<and> chk t n = Inr True))))
   \<and> (cached_extractor n = None \<and> (\<forall>x \<in> set trait_extractors. chk x n = Inr False) \<longrightarrow>
        trait_extractor chk n = Inl (ValueError (NoRecognizedTraitCode (dict_keys (schema n)))))
   \<and> (trait_extractors = pre @ t # post \<and> (\<forall>x \<in> set pre. chk x n = Inr False)
        \<and> chk t n = Inr True \<longrightarrow>
        trait_code chk code n = code t n (trait_code_kwargs n))
   \<and> ((\<forall>x \<in> set trait_extractors. chk x n = Inr False) \<longrightarrow>
        trait_code chk code n = Inl (ValueError (NoRecognizedTraitCode (dict_keys (schema n)))))"
proof (intro conjI impI)
  show "trait_extractors =
     [tx_AnyOfObject, tx_OneOfObject, tx_AllOfObject, tx_RefObject, tx_RefTrait,
      tx_Not, tx_AnyOf, tx_AllOf, tx_OneOf, tx_Enum, tx_SimpleType, tx_CompoundType,
      tx_Array, tx_Object]"
    by (simp add: trait_extractors_def)
  show "trait_extractor chk n = Inr (t, n') \<longleftrightarrow>
           n' = with_extractor n t
           \<and> (\<exists>pre post. trait_extractors = pre @ t # post
                \<and> ((\<forall>x \<in> set pre. chk x n = Inr False) \<and> chk t n = Inr True))"
    if "cached_extractor n = None"
  proof -
    have "trait_extractor chk n = Inr (t, n') \<longleftrightarrow>
            n' = with_extractor n t \<and> first_match chk n trait_extractors = Inr (Some t)"
      using that
      by (auto simp: trait_extractor_def with_extractor_def split: sum.splits option.splits)
    then show ?thesis by (simp only: first_match_Some)
  qed
  show "trait_extractor chk n = Inl (ValueError (NoRecognizedTraitCode (dict_keys (schema n))))"
    if "cached_extractor n = None \<and> (\<forall>x \<in> set trait_extractors. chk x n = Inr False)"
  proof -
    have "first_match chk n trait_extractors = Inr None"
      using that by (simp add: first_match_None)
    then show ?thesis using that by (simp add: trait_extractor_def)
  qed
  show "trait_code chk code n = code t n (trait_code_kwargs n)"
    if "trait_extractors = pre @ t # post \<and> (\<forall>x \<in> set pre. chk x n = Inr False)
        \<and> chk t n = Inr True"
  proof -
    have "first_match chk n trait_extractors = Inr (Some t)"
      unfolding first_match_Some using that by blast
    then show ?thesis by (simp add: trait_code_def)
  qed
  show "trait_code chk code n = Inl (ValueError (NoRecognizedTraitCode (dict_keys (schema n))))"
    if "\<forall>x \<in> set trait_extractors. chk x n = Inr False"
  proof -
    have "first_match chk n trait_extractors = Inr None"
      using that by (simp add: first_match_None)
    then show ?thesis by (simp add: trait_code_def)
  qed
qed

theorem first_match_wins_witness:
  "cached_extractor enum_node = None
   \<and> trait_extractors =
       [tx_AnyOfObject, tx_OneOfObject, tx_AllOfObject, tx_RefObject, tx_RefTrait,
        tx_Not, tx_AnyOf, tx_AllOf, tx_OneOf] @ tx_Enum # [tx_SimpleType, tx_CompoundType,
        tx_Array, tx_Object]
   \<and> enum_or_object tx_Enum enum_node = Inr True
   \<and> enum_or_object tx_Object enum_node = Inr True
   \<and> trait_extractor enum_or_object enum_node = Inr (tx_Enum, with_extractor enum_node tx_Enum)
   \<and> trait_code enum_or_object extractor_name enum_node = Inr tx_Enum
   \<and> trait_extractor nothing_matches enum_node
       = Inl (ValueError (NoRecognizedTraitCode [''enum'']))
   \<and> trait_code nothing_matches extractor_name enum_node
       = Inl (ValueError (NoRecognizedTraitCode [''enum'']))"
proof -
  let ?pre = "[tx_AnyOfObject, tx_OneOfObject, tx_AllOfObject, tx_RefObject,
               tx_RefTrait, tx_Not, tx_AnyOf, tx_AllOf, tx_OneOf]"
  let ?post = "[tx_SimpleType, tx_CompoundType, tx_Array, tx_Object]"
  note hit = first_match_wins
          [where n = enum_node and chk = enum_or_object and t = tx_Enum
             and n' = "with_extractor enum_node tx_Enum" and code = extractor_name
             and pre = ?pre and post = ?post]
  note miss = first_match_wins
          [where n = enum_node and chk = nothing_matches and t = tx_Enum
             and n' = "with_extractor enum_node tx_Enum" and code = extractor_name
             and pre = "[]" and post = "[]"]
  have c: "cached_extractor enum_node = None"
    by (simp add: enum_node_def root_node_def)
  have te: "trait_extractors = ?pre @ tx_Enum # ?post"
    by (simp add: trait_extractors_def)
  have pre: "\<forall>x \<in> set ?pre. enum_or_object x enum_node = Inr False"
    by (simp add: enum_or_object_def)
  have t: "enum_or_object tx_Enum enum_node = Inr True"
    and t': "enum_or_object tx_Object enum_node = Inr True"
    by (simp_all add: enum_or_object_def)
  have none: "\<forall>x \<in> set trait_extractors. nothing_matches x enum_node = Inr False"
    by (simp add: nothing_matches_def)
  have keys: "dict_keys (schema enum_node) = [''enum'']"
    by (simp add: enum_node_def root_node_def)
  have 1: "trait_extractor enum_or_object enum_node
             = Inr (tx_Enum, with_extractor enum_node tx_Enum)"
    using hit c te pre t by blast
  have 2: "trait_code enum_or_object extractor_name enum_node = Inr tx_Enum"
    using hit te pre t by (simp add: extractor_name_def)
  have 3: "trait_extractor nothing_matches enum_node
             = Inl (ValueError (NoRecognizedTraitCode [''enum'']))"
    using miss c none keys by simp
  have 4: "trait_code nothing_matches extractor_name enum_node
             = Inl (ValueError (NoRecognizedTraitCode [''enum'']))"
    using miss none keys by simp
  from c te t t' 1 2 3 4 show ?thesis by blast
qed

section \<open>Reference resolution: results and failures\<close>

lemma split_not_Nil: "split sep s \<noteq> []"
  by (induction s) (auto split: list.splits)

lemma split_hash:
  "split CHR ''/'' r = ''#'' # rest \<longleftrightarrow>
     (r = ''#'' \<and> rest = []) \<or> (\<exists>s. r = ''#/'' @ s \<and> rest = split CHR ''/'' s)"
proof (cases r)
  case Nil
  then show ?thesis by simp
next
  case (Cons c cs)
  note r = Cons
  show ?thesis
  proof (cases cs)
    case Nil
    with r show ?thesis by auto
  next
    case (Cons d ds)
    obtain w ws where w: "split CHR ''/'' ds = w # ws"
      using split_not_Nil by (cases "split CHR ''/'' ds") auto
    show ?thesis
    proof (cases "d = CHR ''/''")
      case True
      with r Cons w show ?thesis by auto
    next
      case False
      with r Cons w show ?thesis by auto
    qed
  qed
qed

lemma walk_errors: "walk sch keys = Inl e \<Longrightarrow> e = TypeError \<or> (\<exists>k \<in> set keys. e = KeyError k)"
proof (induction keys arbitrary: sch)
  case Nil
  then show ?case by simp
next
  case (Cons key keys)
  show ?case
  proof (cases sch)
    case (PDict kvs)
    with Cons show ?thesis by (auto split: option.splits)
  qed (use Cons in auto)
qed

lemma split_empty_head:
  "(\<exists>ws. split sep s = [] # ws) \<longleftrightarrow> s = [] \<or> (\<exists>t. s = sep # t)"
proof (cases s)
  case Nil
  then show ?thesis by simp
next
  case (Cons c cs)
  obtain w ws where "split sep cs = w # ws"
    using split_not_Nil by (cases "split sep cs") auto
  with Cons show ?thesis by auto
qed

lemma names_context_iff:
  assumes "split CHR ''/'' r = ''#'' # rest"
  shows "names_context (''#'' # rest) \<longleftrightarrow> r = ''#'' \<or> r = ''#/'' \<or> (\<exists>s. r = ''#//'' @ s)"
proof -
  from assms consider "r = ''#''" "rest = []"
    | s where "r = ''#/'' @ s" "rest = split CHR ''/'' s"
    unfolding split_hash by blast
  then show ?thesis
  proof cases
    case 1
    then show ?thesis by (simp add: names_context_def)
  next
    case 2
    obtain w ws where w: "split CHR ''/'' s = w # ws"
      using split_not_Nil by (cases "split CHR ''/'' s") auto
    have "names_context (''#'' # rest) \<longleftrightarrow> (\<exists>ws. split CHR ''/'' s = [] # ws)"
      using 2 w by (simp add: names_context_def)
    also have "\<dots> \<longleftrightarrow> s = [] \<or> (\<exists>t. s = CHR ''/'' # t)"
      by (rule split_empty_head)
    also have "\<dots> \<longleftrightarrow> r = ''#'' \<or> r = ''#/'' \<or> (\<exists>t. r = ''#//'' @ t)"
      using 2 by auto
    finally show ?thesis .
  qed
qed

lemma walk_append:
  "walk sch (pre @ post) = (case walk sch pre of Inl e \<Rightarrow> Inl e | Inr v \<Rightarrow> walk v post)"
  by (induction pre arbitrary: sch) (auto split: sum.splits)

lemma walk_KeyError_iff:
  "walk sch keys = Inl (KeyError k) \<longleftrightarrow>
     (\<exists>pre post kvs. keys = pre @ k # post \<and> walk sch pre = Inr (PDict kvs)
        \<and> map_of kvs k = None)"
proof (induction keys arbitrary: sch)
  case Nil
  then show ?case by simp
next
  case (Cons key keys)
  show ?case
  proof
    assume l: "walk sch (key # keys) = Inl (KeyError k)"
    show "\<exists>pre post kvs. key # keys = pre @ k # post \<and> walk sch pre = Inr (PDict kvs)
        \<and> map_of kvs k = None"
    proof (cases "subscript sch key")
      case (Inl e)
      with l have e: "e = KeyError k" by simp
      with Inl obtain kvs where "sch = PDict kvs" "map_of kvs key = None" "key = k"
        by (cases sch) (auto split: option.splits)
      then have "key # keys = [] @ k # keys \<and> walk sch [] = Inr (PDict kvs)
                  \<and> map_of kvs k = None" by simp
      then show ?thesis by blast
    next
      case (Inr v)
      with l have "walk v keys = Inl (KeyError k)" by simp
      then obtain pre post kvs where
        "keys = pre @ k # post" "walk v pre = Inr (PDict kvs)" "map_of kvs k = None"
        using Cons.IH by blast
      with Inr have "key # keys = (key # pre) @ k # post
                      \<and> walk sch (key # pre) = Inr (PDict kvs) \<and> map_of kvs k = None"
        by simp
      then show ?thesis by blast
    qed
  next
    assume "\<exists>pre post kvs. key # keys = pre @ k # post \<and> walk sch pre = Inr (PDict kvs)
        \<and> map_of kvs k = None"
    then obtain pre post kvs where
      e: "key # keys = pre @ k # post" and w: "walk sch pre = Inr (PDict kvs)"
      and m: "map_of kvs k = None" by blast
    have "walk sch (pre @ k # post) = Inl (KeyError k)"
      using w m by (simp add: walk_append)
    with e show "walk sch (key # keys) = Inl (KeyError k)" by simp
  qed
qed

lemma get_reference_unfold:
  assumes "split CHR ''/'' r = p0 # rest"
  shows "get_reference n (PStr r) =
     (if r = [] then Inl (ValueError EmptyReference)
      else if p0 \<noteq> ''#'' then Inl (ValueError (UnrecognizedRefFormat r))
      else if names_context (p0 # rest) then Inr (context_of n)
      else (case walk (schema (context_of n)) rest of
              Inl (KeyError k) \<Rightarrow> Inl (ValueError (RefNotPresent r))
            | Inl e \<Rightarrow> Inl e
            | Inr sch \<Rightarrow> make_child n sch (Some (last (p0 # rest))) None))"
  using assms
  by (simp add: get_reference_def get_reference_str_def names_context_def split: list.splits)

lemma context_of_child [simp]:
  "context_of (Node sch mdl (Some c) par nm md tags ce) = c"
  by (simp add: context_of_def)

text \<open>
  Claim C5, as amended. When \<^verbatim>\<open>get_reference\<close> accepts a reference string, its path begins
  with \<^verbatim>\<open>#\<close>. If the path has that one segment, or its second segment is empty (the reference
  is \<^verbatim>\<open>#\<close>, \<^verbatim>\<open>#/\<close> or begins with \<^verbatim>\<open>#//\<close>), the result is the context of the invoking node
  itself. Otherwise the result wraps the fragment that the walk of the context's fragment
  reaches; its name is the last segment, its module and context are those of the invoking
  node, and the invoking node is its parent.
\<close>

theorem get_reference_result:
  assumes "get_reference n (PStr r) = Inr t"
  shows "\<exists>rest. split CHR ''/'' r = ''#'' # rest
     \<and> (if names_context (''#'' # rest) then t = context_of n
         else walk (schema (context_of n)) rest = Inr (schema t)
              \<and> name t = Some (last (''#'' # rest))
              \<and> module t = module n
              \<and> context_of t = context_of n
              \<and> parent t = Some n)
     \<and> (names_context (''#'' # rest) \<longleftrightarrow>
          r = ''#'' \<or> r = ''#/'' \<or> (\<exists>s. r = ''#//'' @ s))"
proof -
  obtain p0 rest where p: "split CHR ''/'' r = p0 # rest"
    using split_not_Nil by (cases "split CHR ''/'' r") auto
  note u = get_reference_unfold [OF p, of n]
  have r: "r \<noteq> []" and p0: "p0 = ''#''"
    using assms u by (auto split: if_splits)
  from p p0 have p': "split CHR ''/'' r = ''#'' # rest" by simp
  note u' = get_reference_unfold [OF p', of n]
  have body: "if names_context (''#'' # rest) then t = context_of n
         else walk (schema (context_of n)) rest = Inr (schema t)
              \<and> name t = Some (last (''#'' # rest))
              \<and> module t = module n
              \<and> context_of t = context_of n
              \<and> parent t = Some n"
  proof (cases "names_context (''#'' # rest)")
    case True
    with assms u' r show ?thesis by simp
  next
    case False
    with assms u' r have
      c: "(case walk (schema (context_of n)) rest of
              Inl (KeyError k) \<Rightarrow> Inl (ValueError (RefNotPresent r))
            | Inl e \<Rightarrow> Inl e
            | Inr sch \<Rightarrow> make_child n sch (Some (last (''#'' # rest))) None) = Inr t"
      by simp
    then obtain sch where w: "walk (schema (context_of n)) rest = Inr sch"
      and m: "make_child n sch (Some (last (''#'' # rest))) None = Inr t"
      by (cases "walk (schema (context_of n)) rest") (auto split: error.splits)
    from m have "t = Node sch (module n) (Some (context_of n)) (Some n)
                       (Some (last (''#'' # rest))) [] default_definition_tags None"
      by (simp add: make_child_Inr)
    with w False show ?thesis by simp
  qed
  from body names_context_iff [OF p'] p' show ?thesis by blast
qed

text \<open>The reference \<^verbatim>\<open>#/\<close> is not \<^verbatim>\<open>#\<close> alone, and the walk of its path would reach the
  fragment under the empty key; yet the result is the context root itself, which has no
  parent and no name.\<close>

theorem get_reference_result_counterexample:
  "get_reference empty_key_root (PStr ''#/'') = Inr empty_key_root
   \<and> ''#/'' \<noteq> ''#''
   \<and> walk (schema (context_of empty_key_root)) (tl (split CHR ''/'' ''#/'')) = Inr (PDict [])
   \<and> schema empty_key_root \<noteq> PDict []
   \<and> name empty_key_root \<noteq> Some (last (split CHR ''/'' ''#/''))
   \<and> parent empty_key_root \<noteq> Some empty_key_root"
  by (simp add: empty_key_root_def root_node_def get_reference_def get_reference_str_def
      context_of_def)

lemma split_definitions_A:
  "split CHR ''/'' ''#/definitions/A'' = [''#'', ''definitions'', ''A'']"
  by simp

lemma split_definitions_B:
  "split CHR ''/'' ''#/definitions/B'' = [''#'', ''definitions'', ''B'']"
  by simp

lemma get_reference_child_A:
  "get_reference example_root (PStr ''#/definitions/A'') = Inr child_A"
  by (simp add: get_reference_unfold [OF split_definitions_A] names_context_def
      example_root_def root_node_def context_of_def make_child_def init_def child_A_def)

theorem get_reference_result_witness:
  "get_reference example_root (PStr ''#/definitions/A'') = Inr child_A
   \<and> walk (schema (context_of example_root)) [''definitions'', ''A''] = Inr (schema child_A)
   \<and> name child_A = Some ''A''
   \<and> module child_A = module example_root
   \<and> context_of child_A = context_of example_root
   \<and> parent child_A = Some example_root
   \<and> get_reference example_root (PStr ''#'') = Inr (context_of example_root)"
proof -
  have h: "get_reference example_root (PStr ''#/definitions/A'') = Inr child_A"
    by (rule get_reference_child_A)
  have h': "get_reference example_root (PStr ''#'') = Inr (context_of example_root)"
    by (simp add: get_reference_def get_reference_str_def)
  from get_reference_result [OF h] split_definitions_A
  have "walk (schema (context_of example_root)) [''definitions'', ''A''] = Inr (schema child_A)
        \<and> name child_A = Some ''A''
        \<and> module child_A = module example_root
        \<and> context_of child_A = context_of example_root
        \<and> parent child_A = Some example_root"
    by (auto simp: names_context_def)
  with h h' show ?thesis by blast
qed

text \<open>
  Claim C6, as amended. \<^verbatim>\<open>get_reference\<close> on a string fails on the empty reference and on
  a first segment other than \<^verbatim>\<open>#\<close>, whatever the rest of the path is, and returns the context
  for \<^verbatim>\<open>#\<close>, \<^verbatim>\<open>#/\<close> and \<^verbatim>\<open>#//...\<close>. On a path that is walked, and whose walk does not
  subscript a value that is not a dict, it fails in exactly two ways: a segment missing from
  the dict the walk has reached (\<^verbatim>\<open>"$ref=... not present in the schema"\<close>), and a reached
  fragment that is not a dict, which the constructor refuses
  (\<^verbatim>\<open>"schema should be supplied as a dict"\<close>); every other reference yields a node. The walk
  fails with \<^verbatim>\<open>KeyError\<close> exactly on a missing segment, and otherwise only with the
  \<^verbatim>\<open>TypeError\<close> of such a subscript.
\<close>

theorem get_reference_failures:
  assumes "split CHR ''/'' r = p0 # rest"
  shows "(if r = [] then get_reference n (PStr r) = Inl (ValueError EmptyReference)
          else if p0 \<noteq> ''#''
            then get_reference n (PStr r) = Inl (ValueError (UnrecognizedRefFormat r))
          else if names_context (p0 # rest) then get_reference n (PStr r) = Inr (context_of n)
          else walk (schema (context_of n)) rest \<noteq> Inl TypeError \<longrightarrow>
               get_reference n (PStr r) =
                 (case walk (schema (context_of n)) rest of
                    Inl e \<Rightarrow> Inl (ValueError (RefNotPresent r))
                  | Inr sch \<Rightarrow>
                      if is_dict sch
                      then Inr (Node sch (module n) (Some (context_of n)) (Some n)
                                  (Some (last (p0 # rest))) [] default_definition_tags None)
                      else Inl (ValueError SchemaNotDict)))
   \<and> ((\<exists>k. walk (schema (context_of n)) rest = Inl (KeyError k)) \<longleftrightarrow>
        (\<exists>pre k post kvs. rest = pre @ k # post
           \<and> walk (schema (context_of n)) pre = Inr (PDict kvs) \<and> map_of kvs k = None))
   \<and> (\<forall>e. walk (schema (context_of n)) rest = Inl e \<longrightarrow>
          e = TypeError \<or> (\<exists>k. e = KeyError k))"
proof (intro conjI)
  have w: "\<exists>k. e = KeyError k"
    if "walk (schema (context_of n)) rest = Inl e" and "e \<noteq> TypeError" for e
    using walk_errors [OF that(1)] that(2) by auto
  show "if r = [] then get_reference n (PStr r) = Inl (ValueError EmptyReference)
          else if p0 \<noteq> ''#''
            then get_reference n (PStr r) = Inl (ValueError (UnrecognizedRefFormat r))
          else if names_context (p0 # rest) then get_reference n (PStr r) = Inr (context_of n)
          else walk (schema (context_of n)) rest \<noteq> Inl TypeError \<longrightarrow>
               get_reference n (PStr r) =
                 (case walk (schema (context_of n)) rest of
                    Inl e \<Rightarrow> Inl (ValueError (RefNotPresent r))
                  | Inr sch \<Rightarrow>
                      if is_dict sch
                      then Inr (Node sch (module n) (Some (context_of n)) (Some n)
                                  (Some (last (p0 # rest))) [] default_definition_tags None)
                      else Inl (ValueError SchemaNotDict))"
  proof (cases "walk (schema (context_of n)) rest")
    case (Inl e)
    show ?thesis
    proof (cases "e = TypeError")
      case True
      with Inl show ?thesis
        unfolding get_reference_unfold [OF assms] by simp
    next
      case False
      with w [OF Inl] obtain k where "walk (schema (context_of n)) rest = Inl (KeyError k)"
        using Inl by blast
      then show ?thesis
        unfolding get_reference_unfold [OF assms] by simp
    qed
  next
    case (Inr sch)
    then show ?thesis
      unfolding get_reference_unfold [OF assms] by (simp add: make_child_def init_def)
  qed
  show "(\<exists>k. walk (schema (context_of n)) rest = Inl (KeyError k)) \<longleftrightarrow>
        (\<exists>pre k post kvs. rest = pre @ k # post
           \<and> walk (schema (context_of n)) pre = Inr (PDict kvs) \<and> map_of kvs k = None)"
    unfolding walk_KeyError_iff by blast
  show "\<forall>e. walk (schema (context_of n)) rest = Inl e \<longrightarrow>
          e = TypeError \<or> (\<exists>k. e = KeyError k)"
    using w by blast
qed

text \<open>The reference \<^verbatim>\<open>#/type\<close> has the local form and no segment of it is missing, and it
  still fails: the fragment it reaches is a string.\<close>

theorem get_reference_failures_counterexample:
  "get_reference string_type_root (PStr ''#/type'') = Inl (ValueError SchemaNotDict)
   \<and> split CHR ''/'' ''#/type'' = [''#'', ''type'']
   \<and> walk (schema (context_of string_type_root)) [''type''] = Inr (PStr ''string'')"
  by (simp add: string_type_root_def root_node_def get_reference_def get_reference_str_def
      context_of_def make_child_def init_def)

lemma split_x_a_b: "split CHR ''/'' ''x/a/b'' = [''x'', ''a'', ''b'']"
  by simp

lemma split_hash_empty_b: "split CHR ''/'' ''#//b'' = [''#'', [], ''b'']"
  by simp

theorem get_reference_failures_witness:
  "get_reference example_root (PStr ''#/definitions/A'') = Inr child_A
   \<and> get_reference example_root (PStr ''#/definitions/B'')
       = Inl (ValueError (RefNotPresent ''#/definitions/B''))
   \<and> get_reference example_root (PStr ''definitions/A'')
       = Inl (ValueError (UnrecognizedRefFormat ''definitions/A''))
   \<and> get_reference example_root (PStr []) = Inl (ValueError EmptyReference)
   \<and> get_reference string_type_root (PStr ''#/type'') = Inl (ValueError SchemaNotDict)
   \<and> walk (schema (context_of string_members_root)) [''a'', ''b''] = Inl TypeError
   \<and> get_reference string_members_root (PStr ''x/a/b'')
       = Inl (ValueError (UnrecognizedRefFormat ''x/a/b''))
   \<and> walk (schema (context_of string_members_root)) [[], ''b''] = Inl TypeError
   \<and> get_reference string_members_root (PStr ''#//b'') = Inr (context_of string_members_root)"
proof -
  have root: "schema (context_of example_root)
                = PDict [(''definitions'', PDict [(''A'', PDict [])])]"
    by (simp add: example_root_def root_node_def context_of_def)
  have wa: "walk (schema (context_of example_root)) [''definitions'', ''A''] = Inr (PDict [])"
    by (simp add: root)
  have wb: "walk (schema (context_of example_root)) [''definitions'', ''B'']
               = Inl (KeyError ''B'')"
    by (simp add: root)
  have sc: "split CHR ''/'' ''definitions/A'' = [''definitions'', ''A'']"
    and se: "split CHR ''/'' [] = [[]]"
    and st: "split CHR ''/'' ''#/type'' = [''#'', ''type'']"
    by simp_all
  have wt: "walk (schema (context_of string_type_root)) [''type''] = Inr (PStr ''string'')"
    by (simp add: string_type_root_def root_node_def context_of_def)
  have members: "schema (context_of string_members_root)
                   = PDict [(''a'', PStr ''s''), ([], PStr ''t'')]"
    by (simp add: string_members_root_def root_node_def context_of_def)
  have wx: "walk (schema (context_of string_members_root)) [''a'', ''b''] = Inl TypeError"
    and wy: "walk (schema (context_of string_members_root)) [[], ''b''] = Inl TypeError"
    by (simp_all add: members)
  have a: "get_reference example_root (PStr ''#/definitions/A'') = Inr child_A"
    using get_reference_failures [OF split_definitions_A, of example_root] wa
    by (simp add: names_context_def child_A_def example_root_def root_node_def context_of_def)
  have b: "get_reference example_root (PStr ''#/definitions/B'')
             = Inl (ValueError (RefNotPresent ''#/definitions/B''))"
    using get_reference_failures [OF split_definitions_B, of example_root] wb
    by (simp add: names_context_def)
  have c: "get_reference example_root (PStr ''definitions/A'')
             = Inl (ValueError (UnrecognizedRefFormat ''definitions/A''))"
    using get_reference_failures [OF sc, of example_root] by simp
  have e: "get_reference example_root (PStr []) = Inl (ValueError EmptyReference)"
    using get_reference_failures [OF se, of example_root] by simp
  have t: "get_reference string_type_root (PStr ''#/type'') = Inl (ValueError SchemaNotDict)"
    using get_reference_failures [OF st, of string_type_root] wt
    by (simp add: names_context_def)
  have x: "get_reference string_members_root (PStr ''x/a/b'')
             = Inl (ValueError (UnrecognizedRefFormat ''x/a/b''))"
    using get_reference_failures [OF split_x_a_b, of string_members_root] by simp
  have y: "get_reference string_members_root (PStr ''#//b'')
             = Inr (context_of string_members_root)"
    using get_reference_failures [OF split_hash_empty_b, of string_members_root]
    by (simp add: names_context_def)
  from a b c e t wx x wy y show ?thesis by blast
qed

section \<open>Object-like nodes\<close>

lemma py_all_True: "py_all f xs = Inr True \<longleftrightarrow> list_all (\<lambda>x. f x = Inr True) xs"
  by (induction xs) (auto split: sum.splits)

lemma all_children_True:
  "all_children (really_is_object d) n key = Inr True \<longleftrightarrow> branches_all_object d n key"
proof -
  have eq: "(\<lambda>spec. (case make_child n spec None None of
                       Inl e \<Rightarrow> Inl e | Inr c \<Rightarrow> really_is_object d c) = Inr True)
          = (\<lambda>spec. case make_child n spec None None of
                       Inl e \<Rightarrow> False | Inr c \<Rightarrow> really_is_object d c = Inr True)"
    by (auto split: sum.splits)
  show ?thesis
    by (auto simp: all_children_def branches_all_object_def py_all_True eq split: sum.splits)
qed

text \<open>More calls never change a result: the depth that is left matters only until the
  predicate returns.\<close>

lemma py_all_mono:
  assumes "\<And>x r. x \<in> set xs \<Longrightarrow> f x = Inr r \<Longrightarrow> g x = Inr r"
    and "py_all f xs = Inr b"
  shows "py_all g xs = Inr b"
  using assms
proof (induction xs)
  case Nil
  then show ?case by simp
next
  case (Cons x xs)
  from Cons.prems(2) obtain r where r: "f x = Inr r"
    by (cases "f x") auto
  then have g: "g x = Inr r" using Cons.prems(1) by simp
  show ?case
  proof (cases r)
    case True
    with r Cons.prems(2) have "py_all f xs = Inr b" by simp
    then have "py_all g xs = Inr b" using Cons.IH Cons.prems(1) by simp
    with g True show ?thesis by simp
  next
    case False
    with r g Cons.prems(2) show ?thesis by simp
  qed
qed

lemma all_children_mono:
  assumes "\<And>c r. p c = Inr r \<Longrightarrow> q c = Inr r"
    and "all_children p n key = Inr b"
  shows "all_children q n key = Inr b"
proof -
  from assms(2) obtain v specs where v: "getitem n key = Inr v" and i: "iterate v = Inr specs"
    and a: "py_all (\<lambda>spec. case make_child n spec None None of
                              Inl e \<Rightarrow> Inl e | Inr c \<Rightarrow> p c) specs = Inr b"
    by (auto simp: all_children_def split: sum.splits)
  have "py_all (\<lambda>spec. case make_child n spec None None of
                          Inl e \<Rightarrow> Inl e | Inr c \<Rightarrow> q c) specs = Inr b"
    by (rule py_all_mono [OF _ a]) (auto split: sum.splits dest: assms(1))
  with v i show ?thesis by (simp add: all_children_def)
qed

lemma really_is_object_depth_mono:
  "really_is_object d n = Inr b \<Longrightarrow> really_is_object (Suc d) n = Inr b"
proof (induction d arbitrary: n b)
  case 0
  then show ?case by simp
next
  case (Suc d)
  have ih: "\<And>c r. really_is_object d c = Inr r \<Longrightarrow> really_is_object (Suc d) c = Inr r"
    by (rule Suc.IH)
  note ac = all_children_mono [of "really_is_object d" "really_is_object (Suc d)", OF ih]
  from Suc.prems show ?case
    by (subst really_is_object.simps, subst (asm) really_is_object.simps)
       (auto split: if_splits sum.splits dest: ih intro: ac)
qed

lemma really_is_trait_depth_mono:
  "really_is_trait d n = Inr b \<Longrightarrow> really_is_trait (Suc d) n = Inr b"
proof (induction d arbitrary: n b)
  case 0
  then show ?case by simp
next
  case (Suc d)
  have ih: "\<And>c r. really_is_trait d c = Inr r \<Longrightarrow> really_is_trait (Suc d) c = Inr r"
    by (rule Suc.IH)
  note ac = all_children_mono [of "really_is_trait d" "really_is_trait (Suc d)", OF ih]
  from Suc.prems show ?case
    by (subst really_is_trait.simps, subst (asm) really_is_trait.simps)
       (auto split: if_splits sum.splits dest: ih intro: ac)
qed

text \<open>
  Claim C4, as amended. With at least one call left, \<^verbatim>\<open>really_is_object\<close> returns \<^verbatim>\<open>True\<close>
  exactly when the first keyword present, in the order \<^verbatim>\<open>properties\<close>, \<^verbatim>\<open>$ref\<close>, \<^verbatim>\<open>anyOf\<close>,
  \<^verbatim>\<open>allOf\<close>, \<^verbatim>\<open>oneOf\<close>, makes it so: \<^verbatim>\<open>properties\<close> at once, \<^verbatim>\<open>$ref\<close> when the resolved target
  is object-like, a composition keyword when all its branches are object-like. For a node
  that declares \<^verbatim>\<open>properties\<close> or has at most one of the four other keywords this is the
  disjunction of the specification. An \<^verbatim>\<open>anyOf\<close> with one object branch and one primitive
  branch is not object-like.
\<close>

theorem really_is_object_iff:
  "(really_is_object (Suc d) n = Inr True \<longleftrightarrow> object_like_by_precedence d n)
   \<and> (contains n ''properties'' \<or> single_keyword n
        \<longrightarrow> object_like_by_precedence d n = object_like_as_claimed d n)
   \<and> really_is_object (Suc (Suc d)) mixed_anyOf_root = Inr False"
proof (intro conjI impI)
  show "really_is_object (Suc d) n = Inr True \<longleftrightarrow> object_like_by_precedence d n"
    by (simp add: object_like_by_precedence_def all_children_True target_is_object_def
        split: sum.splits)
  show "object_like_by_precedence d n = object_like_as_claimed d n"
    if "contains n ''properties'' \<or> single_keyword n"
    using that
    by (auto simp: object_like_by_precedence_def object_like_as_claimed_def single_keyword_def
        split: if_splits)
  show "really_is_object (Suc (Suc d)) mixed_anyOf_root = Inr False"
    by (simp add: mixed_anyOf_root_def root_node_def contains_def all_children_def getitem_def
        make_child_def init_def)
qed

text \<open>A node with a \<^verbatim>\<open>$ref\<close> to a string type and an \<^verbatim>\<open>anyOf\<close> whose branches are all
  object-like: the \<^verbatim>\<open>$ref\<close> decides and the node is not object-like, although it is an
  \<^verbatim>\<open>anyOf\<close> node all of whose branches are object-like.\<close>

theorem really_is_object_iff_counterexample:
  "really_is_object 2 ref_and_anyOf_root = Inr False
   \<and> object_like_as_claimed 1 ref_and_anyOf_root"
  by (simp add: eval_nat_numeral ref_and_anyOf_root_def root_node_def contains_def
      wrapped_ref_def get_reference_def get_reference_str_def context_of_def make_child_def
      init_def object_like_as_claimed_def branches_all_object_def getitem_def)

theorem really_is_object_iff_witness:
  "really_is_object 2 all_object_anyOf_root = Inr True
   \<and> object_like_by_precedence 1 all_object_anyOf_root
   \<and> single_keyword all_object_anyOf_root
   \<and> object_like_as_claimed 1 all_object_anyOf_root
   \<and> really_is_object 2 mixed_anyOf_root = Inr False
   \<and> \<not> object_like_by_precedence 1 mixed_anyOf_root
   \<and> single_keyword mixed_anyOf_root
   \<and> \<not> object_like_as_claimed 1 mixed_anyOf_root"
proof -
  have s1: "single_keyword all_object_anyOf_root" and s2: "single_keyword mixed_anyOf_root"
    by (simp_all add: single_keyword_def all_object_anyOf_root_def mixed_anyOf_root_def
        root_node_def contains_def)
  have r1: "really_is_object (Suc 1) all_object_anyOf_root = Inr True"
    by (simp add: all_object_anyOf_root_def root_node_def contains_def all_children_def
        getitem_def make_child_def init_def)
  note a = really_is_object_iff [of 1 all_object_anyOf_root]
  note m = really_is_object_iff [of 1 mixed_anyOf_root]
  have m2: "really_is_object 2 mixed_anyOf_root = Inr False"
    using really_is_object_iff [of 0 mixed_anyOf_root] by (simp add: eval_nat_numeral)
  then have m2': "really_is_object (Suc 1) mixed_anyOf_root \<noteq> Inr True"
    by (simp add: eval_nat_numeral)
  have r1': "really_is_object 2 all_object_anyOf_root = Inr True"
    using r1 by (simp add: eval_nat_numeral)
  from a r1 s1 have "object_like_by_precedence 1 all_object_anyOf_root"
    "object_like_as_claimed 1 all_object_anyOf_root" by blast+
  moreover from m m2' s2 have "\<not> object_like_by_precedence 1 mixed_anyOf_root"
    "\<not> object_like_as_claimed 1 mixed_anyOf_root" by blast+
  ultimately show ?thesis using s1 s2 r1' m2 by blast
qed

section \<open>Cyclic references\<close>






lemma py_all_cong: "(\<And>x. x \<in> set xs \<Longrightarrow> f x = g x) \<Longrightarrow> py_all f xs = py_all g xs"
  by (induction xs) (auto split: sum.splits)


















section \<open>The exclusive union\<close>

text \<open>Exactly one element of a list satisfies a predicate when the list splits around one
  element that does, with none before and none after.\<close>

lemma exactly_one_iff:
  "length (filter P xs) = 1 \<longleftrightarrow>
     (\<exists>pre x post. xs = pre @ x # post \<and> P x \<and> (\<forall>y \<in> set pre \<union> set post. \<not> P y))"
proof
  assume "length (filter P xs) = 1"
  then obtain x where "filter P xs = [x]"
    by (cases "filter P xs") auto
  then obtain us vs where "xs = us @ x # vs" "\<forall>u \<in> set us. \<not> P u" "P x" "[] = filter P vs"
    unfolding filter_eq_Cons_iff by blast
  moreover from this have "\<forall>y \<in> set vs. \<not> P y"
    by (metis filter_empty_conv)
  ultimately show "\<exists>pre x post. xs = pre @ x # post \<and> P x
                     \<and> (\<forall>y \<in> set pre \<union> set post. \<not> P y)"
    by blast
next
  assume "\<exists>pre x post. xs = pre @ x # post \<and> P x \<and> (\<forall>y \<in> set pre \<union> set post. \<not> P y)"
  then obtain pre x post where x: "xs = pre @ x # post" "P x"
    and n: "\<forall>y \<in> set pre \<union> set post. \<not> P y" by blast
  from n have "filter P pre = []" "filter P post = []"
    by (simp_all add: filter_empty_conv)
  with x show "length (filter P xs) = 1" by simp
qed

lemma integral_3: "integral 3"
  by (simp add: integral_def)

lemma not_integral_314: "\<not> integral (157 / 50)"
proof -
  have "\<lfloor>157 / 50 :: rat\<rfloor> = 3"
    by (rule floor_unique) simp_all
  then show ?thesis
    by (simp add: integral_def)
qed

text \<open>
  Claim C1, as amended. For a value other than \<open>Undefined\<close>, \<^verbatim>\<open>JSONOneOf\<close> passes exactly when
  one branch validates the value and every other branch fails it; \<open>Undefined\<close> is settled by
  the flag of the \<^verbatim>\<open>JSONOneOf\<close> alone. For the branches \<^verbatim>\<open>[JSONInteger(), JSONNumber()]\<close> the
  value \<^verbatim>\<open>3\<close> fails, since both branches validate it, \<^verbatim>\<open>3.14\<close> passes, since only the number
  branch does, and \<^verbatim>\<open>None\<close> fails; these are the fail cases \<^verbatim>\<open>[None, 3]\<close> and the pass case
  \<^verbatim>\<open>[3.14]\<close> of the repository's test, which passes.
\<close>

theorem oneOf_exactly_one:
  "(v \<noteq> Undefined \<longrightarrow>
      (validate (JSONOneOf a ds) v = Pass \<longleftrightarrow>
         (\<exists>pre d post. ds = pre @ d # post \<and> validate d v = Pass
            \<and> (\<forall>d' \<in> set pre \<union> set post. validate d' v \<noteq> Pass))))
   \<and> validate (JSONOneOf a ds) Undefined = (if a then Pass else Fail TypeMismatch)
   \<and> validate oneOf_integer_number (PInt 3) = Fail (ConstraintViolation ''oneOf'')
   \<and> validate oneOf_integer_number (PFloat (314 / 100)) = Pass
   \<and> validate oneOf_integer_number PNone = Fail (ConstraintViolation ''oneOf'')
   \<and> test_traits oneOf_integer_number [PNone, PInt 3] [PFloat (314 / 100)]"
proof -
  have one: "validate (JSONOneOf a ds) v = Pass \<longleftrightarrow>
         (\<exists>pre d post. ds = pre @ d # post \<and> validate d v = Pass
            \<and> (\<forall>d' \<in> set pre \<union> set post. validate d' v \<noteq> Pass))"
    if "v \<noteq> Undefined"
    using that exactly_one_iff [of "\<lambda>d. validate d v = Pass" ds] by simp
  have u: "validate (JSONOneOf a ds) Undefined = (if a then Pass else Fail TypeMismatch)"
    by (simp add: validate_undefined_def)
  have 3: "validate oneOf_integer_number (PInt 3) = Fail (ConstraintViolation ''oneOf'')"
    unfolding oneOf_integer_number_def
    by (simp add: unconstrained_def check_constraints_def integral_3)
  have f: "validate oneOf_integer_number (PFloat (314 / 100)) = Pass"
    unfolding oneOf_integer_number_def
    by (simp add: unconstrained_def check_constraints_def not_integral_314)
  have n: "validate oneOf_integer_number PNone = Fail (ConstraintViolation ''oneOf'')"
    unfolding oneOf_integer_number_def by simp
  have t: "test_traits oneOf_integer_number [PNone, PInt 3] [PFloat (314 / 100)]"
    using 3 f n by (simp add: test_traits_def)
  from one u 3 f n t show ?thesis by blast
qed

text \<open>The integer branch and the number branch both validate \<^verbatim>\<open>3\<close>, so two branches pass
  and the exclusive union fails it.\<close>

theorem oneOf_exactly_one_counterexample:
  "validate (JSONInteger True unconstrained) (PInt 3) = Pass
   \<and> validate (JSONNumber True unconstrained) (PInt 3) = Pass
   \<and> validate (JSONOneOf True [JSONInteger True unconstrained, JSONNumber True unconstrained])
        (PInt 3) = Fail (ConstraintViolation ''oneOf'')"
  by (simp add: unconstrained_def check_constraints_def integral_3)

theorem oneOf_exactly_one_witness:
  "PFloat (314 / 100) \<noteq> Undefined
   \<and> validate (JSONInteger True unconstrained) (PFloat (314 / 100)) \<noteq> Pass
   \<and> validate (JSONNumber True unconstrained) (PFloat (314 / 100)) = Pass
   \<and> validate (JSONOneOf True [JSONInteger True unconstrained, JSONNumber True unconstrained])
        (PFloat (314 / 100)) = Pass
   \<and> validate (JSONOneOf False [JSONInteger True unconstrained, JSONNumber True unconstrained])
        Undefined = Fail TypeMismatch"
proof -
  let ?i = "JSONInteger True unconstrained" and ?n = "JSONNumber True unconstrained"
  let ?v = "PFloat (314 / 100)"
  have i: "validate ?i ?v \<noteq> Pass" and n: "validate ?n ?v = Pass"
    by (simp_all add: unconstrained_def check_constraints_def not_integral_314)
  have "[?i, ?n] = [?i] @ ?n # [] \<and> validate ?n ?v = Pass
          \<and> (\<forall>d' \<in> set [?i] \<union> set []. validate d' ?v \<noteq> Pass)"
    using i n by simp
  then have ex: "\<exists>pre d post. [?i, ?n] = pre @ d # post \<and> validate d ?v = Pass
          \<and> (\<forall>d' \<in> set pre \<union> set post. validate d' ?v \<noteq> Pass)"
    by blast
  have v: "?v \<noteq> Undefined" by simp
  from oneOf_exactly_one [of ?v True "[?i, ?n]"] v ex
  have "validate (JSONOneOf True [?i, ?n]) ?v = Pass" by blast
  moreover from oneOf_exactly_one [of ?v False "[?i, ?n]"]
  have "validate (JSONOneOf False [?i, ?n]) Undefined = Fail TypeMismatch" by simp
  ultimately show ?thesis using i n v by blast
qed


section \<open>The flag for an absent property\<close>









end
